theory Spec2Isabelle
  imports Complex_Main
begin

section \<open>The ns-3 runner of \<^verbatim>\<open>flsim/network.py\<close>\<close>

text \<open>
  A shallow embedding of class \<^verbatim>\<open>Network\<close>: the synchronous runner
  \<^verbatim>\<open>sendRequest\<close>, and the asynchronous pair \<^verbatim>\<open>sendAsyncRequest\<close> /
  \<^verbatim>\<open>readAsyncResponse\<close>.

  Conventions of the model.
  \<^item> Every Python exception is a value of type \<open>error\<close>; a method that may raise
    returns \<open>error + 'a\<close>, together with the object as the exception leaves it.
  \<^item> Python floats are read as real numbers; the only arithmetic exception of float
    division, \<^verbatim>\<open>ZeroDivisionError\<close>, is kept as a branch (\<open>py_truediv\<close>).
  \<^item> The external process is the environment. What \<^verbatim>\<open>subprocess.run\<close> returns is a
    function of the command; what one call of \<^verbatim>\<open>readAsyncResponse\<close> observes of the
    background process (the clock, \<^verbatim>\<open>poll()\<close>, the captured streams) is an argument
    \<open>env\<close> of that call. \<^verbatim>\<open>terminate()\<close> and \<^verbatim>\<open>kill()\<close> act on the external
    process only; whichever \<^verbatim>\<open>communicate\<close> call returns, its standard output is
    \<open>comm_stdout\<close>.
  \<^item> \<^verbatim>\<open>json.loads\<close> is a parameter \<open>loads\<close>: \<open>None\<close> is a decoding error, and a
    decoded object is represented by the value of its \<^verbatim>\<open>clientResults\<close> key (if
    present), each element being an \<open>entry\<close> with the fields the code reads.
  \<^item> Captured standard output is the list of its lines (\<^verbatim>\<open>stdout.splitlines()\<close>),
    each a list of code points below 256; \<open>strip\<close> removes the white space of
    \<^verbatim>\<open>str.strip()\<close> in that range.
  \<^item> The values of a summary have the types of the output contract (an integer id,
    numbers for the byte count and the times), so \<^verbatim>\<open>int(...)\<close> and \<^verbatim>\<open>float(...)\<close>
    on them do not fail; \<^verbatim>\<open>subprocess.Popen\<close> and \<^verbatim>\<open>communicate\<close> are taken to
    succeed.
  \<^item> The field \<open>spawned\<close> of the object is a ghost log of the commands handed to
    \<^verbatim>\<open>subprocess.run\<close> / \<^verbatim>\<open>subprocess.Popen\<close>, so that "no process is launched" can
    be stated.
\<close>

subsection \<open>Data\<close>

datatype error =
    UsageError                \<comment> \<open>\<^verbatim>\<open>RuntimeError('Async request already in progress.')\<close>\<close>
  | RunFailed string "string list"
                              \<comment> \<open>\<^verbatim>\<open>RuntimeError('ns-3 run failed: STDERR ... STDOUT ...')\<close>\<close>
  | NoJsonSummary             \<comment> \<open>\<^verbatim>\<open>RuntimeError('No JSON summary found in ns-3 output.')\<close>\<close>
  | JSONDecodeError
  | ZeroDivisionError
  | AttributeError
  | TypeError

text \<open>An element of the \<^verbatim>\<open>array\<close> argument: a plain integer, or a client object
  with a \<^verbatim>\<open>client_id\<close> attribute.\<close>

datatype arg = Raw int | Obj int

text \<open>One element of \<^verbatim>\<open>clientResults\<close>: the keys the code reads, each possibly absent.\<close>

record entry =
  e_id :: "int option"
  e_rxBytes :: "real option"
  e_doneAt :: "real option"
  e_endTime :: "real option"
  e_roundTime :: "real option"

type_synonym summary = "entry list option"

type_synonym decoder = "string \<Rightarrow> summary option"

text \<open>The values of the sync result dictionary and of the async records.\<close>

record metric =
  roundTime :: real
  throughput :: real

record ametric =
  startTime :: real
  endTime :: real
  athroughput :: real

text \<open>The command line of \<^verbatim>\<open>_cmd\<close>: its three keyword arguments and the one
  configuration knob the runner itself reads; the remaining flags are constants of the
  configuration.\<close>

record cmd =
  nodeNum :: int
  clients :: nat
  modelBytes :: int
  simTime :: real

text \<open>A \<^verbatim>\<open>subprocess.CompletedProcess\<close>.\<close>

record completed =
  returncode :: int
  stdout :: "string list"
  stderr :: string

text \<open>The adapter object: configuration, async state, and the ghost log.\<close>

record net =
  num_clients :: int
  sim_time :: real
  model_bytes :: int
  proc :: "cmd option"
  async_ids :: "int list"
  async_queue :: "(int \<times> ametric) list"
  deadline :: "real option"
  spawned :: "cmd list"

text \<open>What one call of \<^verbatim>\<open>readAsyncResponse\<close> observes: \<^verbatim>\<open>time.time()\<close>, the value
  of \<^verbatim>\<open>self._proc.poll()\<close> (\<open>None\<close> while the process runs, else its exit status) and
  the streams \<^verbatim>\<open>communicate\<close> returns.\<close>

record env =
  now :: real
  exit_status :: "int option"
  comm_stdout :: "string list"
  comm_stderr :: string

text \<open>The three kinds of answer of \<^verbatim>\<open>readAsyncResponse\<close>: \<^verbatim>\<open>'end'\<close>, \<^verbatim>\<open>{}\<close>, and a
  one-key dictionary \<^verbatim>\<open>{real_id: {...}}\<close>.\<close>

datatype resp = End | InProgress | Data "int \<times> ametric"

subsection \<open>Normalising the active set\<close>

fun in_01 :: "arg \<Rightarrow> bool" where
  "in_01 (Raw n) = (n = 0 \<or> n = 1)"
| "in_01 (Obj _) = False"

fun truthy :: "arg \<Rightarrow> bool" where
  "truthy (Raw n) = (n \<noteq> 0)"
| "truthy (Obj _) = True"

fun has_client_id :: "arg \<Rightarrow> bool" where
  "has_client_id (Obj _) = True"
| "has_client_id (Raw _) = False"

fun client_id :: "arg \<Rightarrow> error + int" where
  "client_id (Obj i) = Inr i"
| "client_id (Raw _) = Inl AttributeError"

fun py_int :: "arg \<Rightarrow> error + int" where
  "py_int (Raw n) = Inr n"
| "py_int (Obj _) = Inl TypeError"

fun map_err :: "('a \<Rightarrow> error + 'b) \<Rightarrow> 'a list \<Rightarrow> error + 'b list" where
  "map_err f [] = Inr []"
| "map_err f (x # xs) =
     (case f x of
        Inl e \<Rightarrow> Inl e
      | Inr y \<Rightarrow> (case map_err f xs of Inl e \<Rightarrow> Inl e | Inr ys \<Rightarrow> Inr (y # ys)))"

definition parse_clients :: "arg list \<Rightarrow> error + int list" where
  "parse_clients cs =
     (if cs \<noteq> [] \<and> has_client_id (hd cs) then map_err client_id cs
      else map_err py_int cs)"

text \<open>The block shared by \<^verbatim>\<open>sendRequest\<close> (lines 119-122) and \<^verbatim>\<open>sendAsyncRequest\<close>
  (lines 160-163): a bitmap of length \<^verbatim>\<open>num_clients\<close>, or a list of identifiers.\<close>

definition active_ids_of :: "int \<Rightarrow> arg list \<Rightarrow> error + int list" where
  "active_ids_of n array =
     (if int (length array) = n \<and> list_all in_01 array
      then Inr (map (\<lambda>p. int (fst p)) (filter (\<lambda>p. truthy (snd p)) (enumerate 0 array)))
      else parse_clients array)"

subsection \<open>Command and output parsing\<close>

definition cmd_of :: "net \<Rightarrow> nat \<Rightarrow> cmd" where
  "cmd_of s active_count =
     \<lparr>nodeNum = num_clients s, clients = active_count,
      modelBytes = model_bytes s, simTime = sim_time s\<rparr>"

text \<open>The white space of \<^verbatim>\<open>str.strip()\<close> among the code points below 256, a character
  of the model being such a code point: tab to carriage return, the four separators,
  the space, next line (U+0085) and the no-break space (U+00A0).\<close>

definition is_space :: "char \<Rightarrow> bool" where
  "is_space c \<longleftrightarrow> c \<in> set [CHR '' '', CHR 0x09, CHR 0x0A, CHR 0x0B, CHR 0x0C, CHR 0x0D,
                            CHR 0x1C, CHR 0x1D, CHR 0x1E, CHR 0x1F, CHR 0x85, CHR 0xA0]"

definition strip :: "string \<Rightarrow> string" where
  "strip s = rev (dropWhile is_space (rev (dropWhile is_space s)))"

definition is_object_line :: "string \<Rightarrow> bool" where
  "is_object_line s \<longleftrightarrow> s \<noteq> [] \<and> hd s = CHR ''{'' \<and> last s = CHR ''}''"

fun first_object :: "string list \<Rightarrow> string option" where
  "first_object [] = None"
| "first_object (line # rest) =
     (let s = strip line in if is_object_line s then Some s else first_object rest)"

definition parse_last_json :: "decoder \<Rightarrow> string list \<Rightarrow> error + summary" where
  "parse_last_json loads out =
     (case first_object (rev out) of
        None \<Rightarrow> Inl NoJsonSummary
      | Some l \<Rightarrow> (case loads l of None \<Rightarrow> Inl JSONDecodeError | Some d \<Rightarrow> Inr d))"

text \<open>\<^verbatim>\<open>data.get('clientResults', [])\<close>.\<close>

definition client_results :: "summary \<Rightarrow> entry list" where
  "client_results d = (case d of None \<Rightarrow> [] | Some es \<Rightarrow> es)"

definition extract_times :: "entry \<Rightarrow> real \<Rightarrow> real" where
  "extract_times e default_sim_time =
     (case e_doneAt e of Some t \<Rightarrow> t
      | None \<Rightarrow> (case e_endTime e of Some t \<Rightarrow> t
      | None \<Rightarrow> (case e_roundTime e of Some t \<Rightarrow> t
      | None \<Rightarrow> default_sim_time)))"

text \<open>\<^verbatim>\<open>int(e.get('id', -1))\<close> and \<^verbatim>\<open>float(e.get('rxBytes', 0.0))\<close>.\<close>

definition local_of :: "entry \<Rightarrow> int" where
  "local_of e = (case e_id e of None \<Rightarrow> - 1 | Some i \<Rightarrow> i)"

definition rx_bytes_of :: "entry \<Rightarrow> real" where
  "rx_bytes_of e = (case e_rxBytes e of None \<Rightarrow> 0 | Some b \<Rightarrow> b)"

subsection \<open>Throughput\<close>

definition py_truediv :: "real \<Rightarrow> real \<Rightarrow> error + real" where
  "py_truediv a b = (if b = 0 then Inl ZeroDivisionError else Inr (a / b))"

text \<open>\<^verbatim>\<open>thr = (rx_bytes / done_at) if done_at and done_at > 0 else 0.0\<close>\<close>

definition thr_of :: "real \<Rightarrow> real \<Rightarrow> error + real" where
  "thr_of rx_bytes done_at =
     (if done_at \<noteq> 0 \<and> done_at > 0 then py_truediv rx_bytes done_at else Inr 0)"

text \<open>The value stored for one reported entry by \<^verbatim>\<open>sendRequest\<close> (lines 144-150).\<close>

definition sync_metric :: "real \<Rightarrow> entry \<Rightarrow> error + metric" where
  "sync_metric st e =
     (let rx_bytes = rx_bytes_of e; done_at = extract_times e st in
      case thr_of rx_bytes done_at of
        Inl err \<Rightarrow> Inl err
      | Inr thr \<Rightarrow> Inr \<lparr>roundTime = done_at, throughput = thr\<rparr>)"

text \<open>The value queued for one reported entry by \<^verbatim>\<open>readAsyncResponse\<close>, the same
  on the timeout path (lines 236-238, 242-248) and after a normal exit (lines 269-278).\<close>

definition async_metric :: "real \<Rightarrow> entry \<Rightarrow> error + ametric" where
  "async_metric st ent =
     (let rx_bytes = rx_bytes_of ent; done_at = extract_times ent st in
      case thr_of rx_bytes done_at of
        Inl err \<Rightarrow> Inl err
      | Inr thr \<Rightarrow> Inr \<lparr>startTime = 0, endTime = done_at, athroughput = thr\<rparr>)"

subsection \<open>The synchronous runner\<close>

text \<open>The loop of lines 140-150. \<^verbatim>\<open>id_map\<close> has the keys \<open>0 .. len(active_ids) - 1\<close>,
  so \<^verbatim>\<open>local not in id_map\<close> is the range test, and \<^verbatim>\<open>id_map[local]\<close> is
  \<^verbatim>\<open>active_ids[local]\<close>.\<close>

fun sync_loop ::
  "real \<Rightarrow> int list \<Rightarrow> entry list \<Rightarrow> (int \<rightharpoonup> metric) \<Rightarrow> error + (int \<rightharpoonup> metric)" where
  "sync_loop st active_ids [] out = Inr out"
| "sync_loop st active_ids (e # es) out =
     (let local = local_of e in
      if \<not> (0 \<le> local \<and> local < int (length active_ids))
      then sync_loop st active_ids es out
      else (case sync_metric st e of
              Inl err \<Rightarrow> Inl err
            | Inr m \<Rightarrow> sync_loop st active_ids es (out(active_ids ! nat local \<mapsto> m))))"

definition sendRequest ::
  "decoder \<Rightarrow> (cmd \<Rightarrow> completed) \<Rightarrow> net \<Rightarrow> arg list \<Rightarrow> (error + (int \<rightharpoonup> metric)) \<times> net" where
  "sendRequest loads run s array =
     (case active_ids_of (num_clients s) array of
        Inl err \<Rightarrow> (Inl err, s)
      | Inr active_ids \<Rightarrow>
          if active_ids = [] then (Inr Map.empty, s)
          else
            let c = cmd_of s (length active_ids);
                p = run c;
                s' = s\<lparr>spawned := spawned s @ [c]\<rparr>
            in if returncode p \<noteq> 0 then (Inl (RunFailed (stderr p) (stdout p)), s')
               else (case parse_last_json loads (stdout p) of
                       Inl err \<Rightarrow> (Inl err, s')
                     | Inr data \<Rightarrow>
                         (sync_loop (sim_time s) active_ids (client_results data) Map.empty, s')))"

subsection \<open>The asynchronous orchestrator\<close>

definition sendAsyncRequest :: "real \<Rightarrow> net \<Rightarrow> arg list \<Rightarrow> (error + unit) \<times> net" where
  "sendAsyncRequest t s array =
     (if proc s \<noteq> None then (Inl UsageError, s)
      else (case active_ids_of (num_clients s) array of
              Inl err \<Rightarrow> (Inl err, s)
            | Inr active_ids \<Rightarrow>
                let s1 = s\<lparr>async_ids := active_ids, async_queue := [], deadline := None\<rparr>
                in if active_ids = [] then (Inr (), s1\<lparr>proc := None, async_queue := []\<rparr>)
                   else
                     let c = cmd_of s (length active_ids)
                     in (Inr (), s1\<lparr>proc := Some c, spawned := spawned s @ [c],
                                     deadline := Some (t + max 10 (4 * sim_time s))\<rparr>)))"

text \<open>\<^verbatim>\<open>results = {int(e.get('id', -1)): e for e in ...}\<close>: a later entry with the same
  key replaces an earlier one.\<close>

definition results_of :: "entry list \<Rightarrow> (int \<rightharpoonup> entry)" where
  "results_of es = foldl (\<lambda>m e. m(local_of e \<mapsto> e)) Map.empty es"

text \<open>Truth value of a dictionary: it has a key. (Every entry a lookup with a local index
  finds has the key \<^verbatim>\<open>id\<close>.)\<close>

definition entry_nonempty :: "entry \<Rightarrow> bool" where
  "entry_nonempty e \<longleftrightarrow>
     e_id e \<noteq> None \<or> e_rxBytes e \<noteq> None \<or> e_doneAt e \<noteq> None \<or> e_endTime e \<noteq> None
     \<or> e_roundTime e \<noteq> None"

text \<open>Lines 240-241 and 244-246: the record of a client the killed process did not report.\<close>

definition synthesized :: "real \<Rightarrow> ametric" where
  "synthesized st = \<lparr>startTime = 0, endTime = st, athroughput = 0\<rparr>"

text \<open>The loop of lines 232-248 over \<^verbatim>\<open>range(len(self._async_ids))\<close>, appending to the
  queue; an exception leaves the queue as far as it was built.\<close>

fun timeout_loop ::
  "real \<Rightarrow> int list \<Rightarrow> (int \<rightharpoonup> entry) \<Rightarrow> nat list \<Rightarrow> (int \<times> ametric) list
   \<Rightarrow> error option \<times> (int \<times> ametric) list" where
  "timeout_loop st ids results [] q = (None, q)"
| "timeout_loop st ids results (local # ls) q =
     (let ent = results (int local); real_id = ids ! local in
      case (case ent of
              Some e \<Rightarrow> if entry_nonempty e then async_metric st e else Inr (synthesized st)
            | None \<Rightarrow> Inr (synthesized st)) of
        Inl err \<Rightarrow> (Some err, q)
      | Inr m \<Rightarrow> timeout_loop st ids results ls (q @ [(real_id, m)]))"

text \<open>The loop of lines 264-278: a client without an entry is skipped.\<close>

fun normal_loop ::
  "real \<Rightarrow> int list \<Rightarrow> (int \<rightharpoonup> entry) \<Rightarrow> nat list \<Rightarrow> (int \<times> ametric) list
   \<Rightarrow> error option \<times> (int \<times> ametric) list" where
  "normal_loop st ids results [] q = (None, q)"
| "normal_loop st ids results (local # ls) q =
     (case results (int local) of
        None \<Rightarrow> normal_loop st ids results ls q
      | Some e \<Rightarrow>
          if \<not> entry_nonempty e then normal_loop st ids results ls q
          else
            let real_id = ids ! local in
            (case async_metric st e of
               Inl err \<Rightarrow> (Some err, q)
             | Inr m \<Rightarrow> normal_loop st ids results ls (q @ [(real_id, m)])))"

text \<open>The truth value of \<^verbatim>\<open>ent = results.get(local)\<close> in both loops: an entry was
  found and is not the empty dictionary.\<close>

definition reported :: "(int \<rightharpoonup> entry) \<Rightarrow> nat \<Rightarrow> bool" where
  "reported results l = (case results (int l) of None \<Rightarrow> False | Some e \<Rightarrow> entry_nonempty e)"

text \<open>Lines 280-284: serve one record and pop it, or report the end.\<close>

definition serve :: "net \<Rightarrow> (error + resp) \<times> net" where
  "serve s =
     (case async_queue s of
        m # rest \<Rightarrow> (Inr (Data m), s\<lparr>async_queue := rest\<rparr>)
      | [] \<Rightarrow> (Inr End, s))"

text \<open>\<^verbatim>\<open>self._deadline is not None and time.time() > self._deadline\<close>\<close>

definition timed_out :: "net \<Rightarrow> env \<Rightarrow> bool" where
  "timed_out s e = (case deadline s of None \<Rightarrow> False | Some d \<Rightarrow> now e > d)"

text \<open>The timeout branch (lines 205-248): the handle is released, a parse failure is
  replaced by an empty result list, the queue is built, and control falls through to
  the serving block (the block of line 254 is skipped, the handle being released).\<close>

definition tolerant_parse :: "decoder \<Rightarrow> string list \<Rightarrow> summary" where
  "tolerant_parse loads out =
     (case parse_last_json loads out of Inl _ \<Rightarrow> Some [] | Inr d \<Rightarrow> d)"

definition on_timeout :: "decoder \<Rightarrow> env \<Rightarrow> net \<Rightarrow> (error + resp) \<times> net" where
  "on_timeout loads e s =
     (let s1 = s\<lparr>proc := None\<rparr>;
          data = tolerant_parse loads (comm_stdout e);
          results = results_of (client_results data)
      in case timeout_loop (sim_time s) (async_ids s) results [0..<length (async_ids s)]
                (async_queue s1) of
           (Some err, q) \<Rightarrow> (Inl err, s1\<lparr>async_queue := q\<rparr>)
         | (None, q) \<Rightarrow> serve (s1\<lparr>async_queue := q\<rparr>))"

text \<open>The block of lines 254-278, after a normal exit; the exit status is not read.\<close>

definition on_finished :: "decoder \<Rightarrow> env \<Rightarrow> net \<Rightarrow> (error + resp) \<times> net" where
  "on_finished loads e s =
     (let s1 = s\<lparr>proc := None\<rparr> in
      case parse_last_json loads (comm_stdout e) of
        Inl err \<Rightarrow> (Inl err, s1)
      | Inr data \<Rightarrow>
          (let results = results_of (client_results data) in
           case normal_loop (sim_time s) (async_ids s) results [0..<length (async_ids s)]
                  (async_queue s1) of
             (Some err, q) \<Rightarrow> (Inl err, s1\<lparr>async_queue := q\<rparr>)
           | (None, q) \<Rightarrow> serve (s1\<lparr>async_queue := q\<rparr>)))"

definition readAsyncResponse :: "decoder \<Rightarrow> env \<Rightarrow> net \<Rightarrow> (error + resp) \<times> net" where
  "readAsyncResponse loads e s =
     (if proc s = None \<and> async_queue s = [] then (Inr End, s)
      else if proc s \<noteq> None \<and> exit_status e = None then
        (if timed_out s e then on_timeout loads e s else (Inr InProgress, s))
      else if proc s \<noteq> None \<and> exit_status e \<noteq> None then on_finished loads e s
      else serve s)"

text \<open>Calling \<^verbatim>\<open>readAsyncResponse\<close> once per observation, collecting the answers.\<close>

fun polls :: "decoder \<Rightarrow> net \<Rightarrow> env list \<Rightarrow> (error + resp) list \<times> net" where
  "polls loads s [] = ([], s)"
| "polls loads s (e # es) =
     (let (r, s') = readAsyncResponse loads e s;
          (rs, s'') = polls loads s' es
      in (r # rs, s''))"

text \<open>Polling once per observation of \<open>es\<close> yields exactly the records \<open>Q\<close>, one per
  call and in this order, and then the end sentinel.\<close>

definition drained_by :: "decoder \<Rightarrow> net \<Rightarrow> env list \<Rightarrow> (int \<times> ametric) list \<Rightarrow> bool" where
  "drained_by loads s es Q \<longleftrightarrow> fst (polls loads s es) = map (\<lambda>r. Inr (Data r)) Q @ [Inr End]"

text \<open>The queue is filled only when the handle is released: while a handle is held the
  queue is empty.\<close>

definition queue_waits :: "net \<Rightarrow> bool" where
  "queue_waits s \<longleftrightarrow> proc s = None \<or> async_queue s = []"

subsection \<open>The two presentations of an active set, in the words of the specification\<close>

text \<open>A bitmap of length = total clients with a 1 exactly at the members, and the explicit
  list of identifiers.\<close>

definition bitmap_of :: "int \<Rightarrow> int list \<Rightarrow> arg list" where
  "bitmap_of n ids = map (\<lambda>i. Raw (if int i \<in> set ids then 1 else 0)) [0..<nat n]"

definition id_list_of :: "int list \<Rightarrow> arg list" where
  "id_list_of ids = map Raw ids"

text \<open>A list of raw identifiers that the test of lines 119 and 160 takes for a bitmap.\<close>

definition bitmap_shaped :: "int \<Rightarrow> int list \<Rightarrow> bool" where
  "bitmap_shaped n ids \<longleftrightarrow> int (length ids) = n \<and> list_all (\<lambda>i. i = 0 \<or> i = 1) ids"

text \<open>The throughput in the words of the specification: received bytes over completion
  time if the completion time is positive, else 0.\<close>

definition spec_throughput :: "real \<Rightarrow> real \<Rightarrow> real" where
  "spec_throughput rx t = (if 0 < t then rx / t else 0)"

subsection \<open>A concrete round\<close>

text \<open>The adapter after construction for ten clients with the default simulated
  duration, a summary line reporting local indices 0 and 2 (local index 1 missing), and
  observations of the background process: exited with status 0, exited with status 1,
  still running before the deadline, and still running after it with no summary
  written.\<close>

definition demo_net :: net where
  "demo_net = \<lparr>num_clients = 10, sim_time = 0.8, model_bytes = 1600, proc = None,
               async_ids = [], async_queue = [], deadline = None, spawned = []\<rparr>"

definition demo_line :: string where
  "demo_line = ''{\"clientResults\":[{\"id\":0,\"rxBytes\":1000,\"doneAt\":0.5},{\"id\":2,\"rxBytes\":2000,\"doneAt\":1.0}]}''"

definition demo_entries :: "entry list" where
  "demo_entries =
     [\<lparr>e_id = Some 0, e_rxBytes = Some 1000, e_doneAt = Some 0.5,
       e_endTime = None, e_roundTime = None\<rparr>,
      \<lparr>e_id = Some 2, e_rxBytes = Some 2000, e_doneAt = Some 1,
       e_endTime = None, e_roundTime = None\<rparr>]"

definition demo_loads :: decoder where
  "demo_loads l = (if l = demo_line then Some (Some demo_entries) else None)"

definition demo_run :: "int \<Rightarrow> cmd \<Rightarrow> completed" where
  "demo_run rc c = \<lparr>returncode = rc, stdout = [''Waf: done'', demo_line], stderr = ''warn''\<rparr>"

definition demo_exited :: "int \<Rightarrow> env" where
  "demo_exited rc = \<lparr>now = 1, exit_status = Some rc,
                     comm_stdout = [''Waf: done'', '' '' @ demo_line], comm_stderr = ''warn''\<rparr>"

definition demo_running :: env where
  "demo_running = \<lparr>now = 1, exit_status = None, comm_stdout = [], comm_stderr = []\<rparr>"

definition demo_late :: env where
  "demo_late = \<lparr>now = 100, exit_status = None, comm_stdout = [''Waf: done''],
                comm_stderr = []\<rparr>"

definition demo_started :: net where
  "demo_started = snd (sendAsyncRequest 0 demo_net [Raw 3, Raw 7, Raw 9])"

text \<open>The same round one poll after the process has exited: the record of client 3 is
  delivered, the record of client 9 is still queued.\<close>

definition demo_draining :: net where
  "demo_draining = snd (readAsyncResponse demo_loads (demo_exited 0) demo_started)"

section \<open>Properties\<close>

subsection \<open>The guarded division\<close>

lemma thr_of_total: "thr_of rx d = Inr (if 0 < d then rx / d else 0)"
  by (simp add: thr_of_def py_truediv_def)

lemma sync_metric_total:
  "sync_metric st e =
     Inr \<lparr>roundTime = extract_times e st,
          throughput = (if 0 < extract_times e st then rx_bytes_of e / extract_times e st else 0)\<rparr>"
  by (simp add: sync_metric_def thr_of_total Let_def)

lemma async_metric_total:
  "async_metric st e =
     Inr \<lparr>startTime = 0, endTime = extract_times e st,
          athroughput = (if 0 < extract_times e st then rx_bytes_of e / extract_times e st else 0)\<rparr>"
  by (simp add: async_metric_def thr_of_total Let_def)

subsection \<open>The loops always run to their end\<close>


lemma sync_loop_dom:
  "\<exists>out'. sync_loop st ids es out = Inr out' \<and>
     dom out' = dom out \<union> (\<lambda>e. ids ! nat (local_of e)) ` {e \<in> set es. 0 \<le> local_of e \<and> local_of e < int (length ids)}"
proof (induction es arbitrary: out)
  case Nil
  then show ?case by simp
next
  case (Cons e es)
  let ?R = "\<lambda>xs. (\<lambda>e. ids ! nat (local_of e)) ` {e \<in> set xs. 0 \<le> local_of e \<and> local_of e < int (length ids)}"
  show ?case
  proof (cases "0 \<le> local_of e \<and> local_of e < int (length ids)")
    case False
    then have "?R (e # es) = ?R es" by auto
    moreover from False have "sync_loop st ids (e # es) out = sync_loop st ids es out"
      by (simp add: Let_def)
    ultimately show ?thesis using Cons.IH [of out] by simp
  next
    case True
    obtain m where m: "sync_metric st e = Inr m" by (simp add: sync_metric_total)
    let ?out1 = "out(ids ! nat (local_of e) \<mapsto> m)"
    from True m have step: "sync_loop st ids (e # es) out = sync_loop st ids es ?out1"
      by (simp add: Let_def)
    from True have R: "?R (e # es) = insert (ids ! nat (local_of e)) (?R es)" by auto
    obtain out' where o: "sync_loop st ids es ?out1 = Inr out'"
      and d: "dom out' = dom ?out1 \<union> ?R es"
      using Cons.IH [of ?out1] by blast
    have "dom out' = dom out \<union> ?R (e # es)"
      unfolding d R by simp
    with o step show ?thesis by simp
  qed
qed


lemma results_of_snoc: "results_of (es @ [e]) = (results_of es)(local_of e \<mapsto> e)"
  by (simp add: results_of_def)

lemma results_of_Nil: "results_of [] = Map.empty"
  by (simp add: results_of_def)

lemma results_of_key: "results_of es k = Some e \<Longrightarrow> local_of e = k"
  by (induction es arbitrary: e rule: rev_induct)
     (auto simp: results_of_snoc results_of_Nil split: if_splits)

lemma results_of_dom: "dom (results_of es) = local_of ` set es"
proof (induction es rule: rev_induct)
  case Nil
  show ?case by (simp add: results_of_Nil)
next
  case (snoc x xs)
  have "dom (results_of (xs @ [x])) = insert (local_of x) (dom (results_of xs))"
    unfolding results_of_snoc by (simp only: dom_fun_upd option.simps if_False)
  with snoc show ?case by simp
qed

lemma results_of_nonempty:
  assumes "results_of es (int l) = Some e"
  shows "entry_nonempty e"
proof -
  from assms have "local_of e = int l" by (rule results_of_key)
  then have "e_id e \<noteq> None" by (auto simp: local_of_def split: option.splits)
  then show ?thesis by (simp add: entry_nonempty_def)
qed

lemma timeout_loop_built:
  "\<exists>Q. timeout_loop st ids res ls q = (None, q @ Q) \<and>
       list_all2 (\<lambda>l r. fst r = ids ! l \<and>
                    (case res (int l) of
                       None \<Rightarrow> snd r = synthesized st
                     | Some e \<Rightarrow> if entry_nonempty e then async_metric st e = Inr (snd r)
                                 else snd r = synthesized st)) ls Q"
proof (induction ls arbitrary: q)
  case Nil
  then show ?case by simp
next
  case (Cons l ls)
  define m where "m = (case res (int l) of
                         None \<Rightarrow> synthesized st
                       | Some e \<Rightarrow> if entry_nonempty e
                                   then \<lparr>startTime = 0, endTime = extract_times e st,
                                         athroughput = (if 0 < extract_times e st
                                            then rx_bytes_of e / extract_times e st else 0)\<rparr>
                                   else synthesized st)"
  have step: "timeout_loop st ids res (l # ls) q = timeout_loop st ids res ls (q @ [(ids ! l, m)])"
    by (simp add: m_def Let_def async_metric_total split: option.splits)
  have hd: "(case res (int l) of
               None \<Rightarrow> m = synthesized st
             | Some e \<Rightarrow> if entry_nonempty e then async_metric st e = Inr m
                         else m = synthesized st)"
    by (simp add: m_def async_metric_total split: option.splits)
  obtain Q where Q: "timeout_loop st ids res ls (q @ [(ids ! l, m)]) = (None, (q @ [(ids ! l, m)]) @ Q)"
    and all: "list_all2 (\<lambda>l r. fst r = ids ! l \<and>
                    (case res (int l) of
                       None \<Rightarrow> snd r = synthesized st
                     | Some e \<Rightarrow> if entry_nonempty e then async_metric st e = Inr (snd r)
                                 else snd r = synthesized st)) ls Q"
    using Cons.IH [of "q @ [(ids ! l, m)]"] by blast
  from step Q have "timeout_loop st ids res (l # ls) q = (None, q @ ((ids ! l, m) # Q))" by simp
  moreover from hd all have "list_all2 (\<lambda>l r. fst r = ids ! l \<and>
                    (case res (int l) of
                       None \<Rightarrow> snd r = synthesized st
                     | Some e \<Rightarrow> if entry_nonempty e then async_metric st e = Inr (snd r)
                                 else snd r = synthesized st)) (l # ls) ((ids ! l, m) # Q)"
    by (auto split: option.splits)
  ultimately show ?case by blast
qed

lemma normal_loop_built:
  "\<exists>Q. normal_loop st ids res ls q = (None, q @ Q) \<and>
       list_all2 (\<lambda>l r. fst r = ids ! l \<and> (\<exists>e. res (int l) = Some e \<and> async_metric st e = Inr (snd r)))
         (filter (reported res) ls) Q"
proof (induction ls arbitrary: q)
  case Nil
  then show ?case by simp
next
  case (Cons l ls)
  show ?case
  proof (cases "reported res l")
    case False
    then have "normal_loop st ids res (l # ls) q = normal_loop st ids res ls q"
      by (auto simp: reported_def split: option.splits)
    with False Cons.IH [of q] show ?thesis by simp
  next
    case True
    then obtain e where e: "res (int l) = Some e" "entry_nonempty e"
      by (auto simp: reported_def split: option.splits)
    obtain m where m: "async_metric st e = Inr m" by (simp add: async_metric_total)
    from e m have step: "normal_loop st ids res (l # ls) q = normal_loop st ids res ls (q @ [(ids ! l, m)])"
      by (simp add: Let_def)
    obtain Q where Q: "normal_loop st ids res ls (q @ [(ids ! l, m)]) = (None, (q @ [(ids ! l, m)]) @ Q)"
      and all: "list_all2 (\<lambda>l r. fst r = ids ! l \<and> (\<exists>e. res (int l) = Some e \<and> async_metric st e = Inr (snd r)))
         (filter (reported res) ls) Q"
      using Cons.IH [of "q @ [(ids ! l, m)]"] by blast
    from step Q have "normal_loop st ids res (l # ls) q = (None, q @ ((ids ! l, m) # Q))" by simp
    moreover from True e m all have "list_all2 (\<lambda>l r. fst r = ids ! l \<and> (\<exists>e. res (int l) = Some e \<and> async_metric st e = Inr (snd r)))
         (filter (reported res) (l # ls)) ((ids ! l, m) # Q)"
      by simp
    ultimately show ?thesis by blast
  qed
qed

lemma read_released: "proc s = None \<Longrightarrow> readAsyncResponse loads e s = serve s"
  by (simp add: readAsyncResponse_def serve_def)

lemma serve_proc: "proc (snd (serve s)) = proc s"
  by (simp add: serve_def split: list.splits)

lemma polls_released:
  "proc s = None \<Longrightarrow>
   fst (polls loads s es) =
     map (\<lambda>r. Inr (Data r)) (take (length es) (async_queue s))
     @ replicate (length es - length (async_queue s)) (Inr End)"
proof (induction es arbitrary: s)
  case Nil
  then show ?case by simp
next
  case (Cons e es)
  show ?case
  proof (cases "async_queue s")
    case Nil
    with Cons.prems have r: "readAsyncResponse loads e s = (Inr End, s)"
      by (simp add: read_released serve_def)
    from Cons.IH [OF Cons.prems] Nil r show ?thesis
      by (simp add: split_beta)
  next
    case (Cons m rest)
    with Cons.prems have r: "readAsyncResponse loads e s = (Inr (Data m), s\<lparr>async_queue := rest\<rparr>)"
      by (simp add: read_released serve_def)
    from Cons.prems have "proc (s\<lparr>async_queue := rest\<rparr>) = None" by simp
    from Cons.IH [OF this] Cons r show ?thesis
      by (simp add: split_beta)
  qed
qed

subsection \<open>No call ends in a division error\<close>

lemma map_err_client_id: "map_err client_id cs \<noteq> Inl ZeroDivisionError"
proof (induction cs)
  case Nil
  show ?case by simp
next
  case (Cons c cs)
  then show ?case by (cases c) (auto split: sum.splits)
qed

lemma map_err_py_int: "map_err py_int cs \<noteq> Inl ZeroDivisionError"
proof (induction cs)
  case Nil
  show ?case by simp
next
  case (Cons c cs)
  then show ?case by (cases c) (auto split: sum.splits)
qed

lemma active_ids_of_no_zde: "active_ids_of n array \<noteq> Inl ZeroDivisionError"
  by (simp add: active_ids_of_def parse_clients_def map_err_client_id map_err_py_int)

lemma parse_last_json_no_zde: "parse_last_json loads out \<noteq> Inl ZeroDivisionError"
  by (simp add: parse_last_json_def split: option.splits)

lemma sync_loop_Inr: "sync_loop st ids es out \<noteq> Inl err"
  using sync_loop_dom [of st ids es out] by auto

lemma sendRequest_no_zde: "fst (sendRequest loads run s array) \<noteq> Inl ZeroDivisionError"
  by (auto simp: sendRequest_def Let_def active_ids_of_no_zde parse_last_json_no_zde sync_loop_Inr
           split: sum.splits)

lemma serve_Inr: "fst (serve s) \<noteq> Inl err"
  by (simp add: serve_def split: list.splits)

lemma on_timeout_Inr: "fst (on_timeout loads e s) \<noteq> Inl err"
proof -
  obtain Q where "timeout_loop (sim_time s) (async_ids s)
      (results_of (client_results (tolerant_parse loads (comm_stdout e))))
      [0..<length (async_ids s)] (async_queue (s\<lparr>proc := None\<rparr>)) = (None, async_queue (s\<lparr>proc := None\<rparr>) @ Q)"
    using timeout_loop_built by blast
  then show ?thesis by (simp add: on_timeout_def Let_def serve_Inr)
qed

lemma on_finished_no_zde: "fst (on_finished loads e s) \<noteq> Inl ZeroDivisionError"
proof (cases "parse_last_json loads (comm_stdout e)")
  case (Inl err)
  with parse_last_json_no_zde [of loads "comm_stdout e"] show ?thesis
    by (simp add: on_finished_def)
next
  case (Inr data)
  obtain Q where "normal_loop (sim_time s) (async_ids s) (results_of (client_results data))
      [0..<length (async_ids s)] (async_queue (s\<lparr>proc := None\<rparr>)) = (None, async_queue (s\<lparr>proc := None\<rparr>) @ Q)"
    using normal_loop_built by blast
  with Inr show ?thesis by (simp add: on_finished_def Let_def serve_Inr)
qed

lemma readAsyncResponse_no_zde: "fst (readAsyncResponse loads e s) \<noteq> Inl ZeroDivisionError"
  by (simp add: readAsyncResponse_def on_timeout_Inr on_finished_no_zde serve_Inr)

subsection \<open>The concrete round, evaluated\<close>

lemma demo_strip:
  "strip demo_line = demo_line" "strip (CHR '' '' # demo_line) = demo_line"
  "is_object_line demo_line" "\<not> is_object_line (strip ''Waf: done'')"
  by (simp_all add: strip_def is_space_def is_object_line_def demo_line_def)

lemma demo_parse:
  "parse_last_json demo_loads [''Waf: done'', demo_line] = Inr (Some demo_entries)"
  "parse_last_json demo_loads [''Waf: done'', CHR '' '' # demo_line] = Inr (Some demo_entries)"
  by (simp_all add: parse_last_json_def demo_strip demo_loads_def Let_def)

lemma demo_parse_late: "tolerant_parse demo_loads [''Waf: done''] = Some []"
  by (simp add: tolerant_parse_def parse_last_json_def demo_strip Let_def)

lemma demo_ids: "active_ids_of 10 [Raw 3, Raw 7, Raw 9] = Inr [3, 7, 9]"
  by (simp add: active_ids_of_def parse_clients_def)

lemma demo_started_eq:
  "demo_started =
     \<lparr>num_clients = 10, sim_time = 0.8, model_bytes = 1600,
      proc = Some \<lparr>nodeNum = 10, clients = 3, modelBytes = 1600, simTime = 0.8\<rparr>,
      async_ids = [3, 7, 9], async_queue = [], deadline = Some 10,
      spawned = [\<lparr>nodeNum = 10, clients = 3, modelBytes = 1600, simTime = 0.8\<rparr>]\<rparr>"
  by (simp add: demo_started_def sendAsyncRequest_def demo_net_def demo_ids cmd_of_def Let_def)

lemma upt3: "[0..<3] = [0, 1, 2]"
  by (simp add: upt_rec)

lemma demo_exited_step:
  "readAsyncResponse demo_loads (demo_exited rc) demo_started =
     (Inr (Data (3, \<lparr>startTime = 0, endTime = 0.5, athroughput = 2000\<rparr>)),
      demo_started\<lparr>proc := None,
                    async_queue := [(9, \<lparr>startTime = 0, endTime = 1, athroughput = 2000\<rparr>)]\<rparr>)"
  by (simp add: readAsyncResponse_def on_finished_def demo_exited_def demo_started_eq demo_parse
        client_results_def upt3 serve_def Let_def results_of_def demo_entries_def local_of_def
        entry_nonempty_def async_metric_total extract_times_def rx_bytes_of_def)

lemma demo_late_step:
  "readAsyncResponse demo_loads demo_late demo_started =
     (Inr (Data (3, \<lparr>startTime = 0, endTime = 0.8, athroughput = 0\<rparr>)),
      demo_started\<lparr>proc := None,
                    async_queue := [(7, \<lparr>startTime = 0, endTime = 0.8, athroughput = 0\<rparr>),
                                    (9, \<lparr>startTime = 0, endTime = 0.8, athroughput = 0\<rparr>)]\<rparr>)"
  by (simp add: readAsyncResponse_def on_timeout_def timed_out_def demo_late_def demo_started_eq
        demo_parse_late client_results_def upt3 serve_def Let_def results_of_def synthesized_def)

lemma demo_sync:
  "sendRequest demo_loads (demo_run 0) demo_net [Raw 3, Raw 7, Raw 9] =
     (Inr [3 \<mapsto> \<lparr>roundTime = 0.5, throughput = 2000\<rparr>, 9 \<mapsto> \<lparr>roundTime = 1, throughput = 2000\<rparr>],
      demo_net\<lparr>spawned := [\<lparr>nodeNum = 10, clients = 3, modelBytes = 1600, simTime = 0.8\<rparr>]\<rparr>)"
  by (simp add: sendRequest_def demo_net_def demo_ids demo_run_def demo_parse client_results_def
        cmd_of_def Let_def demo_entries_def local_of_def sync_metric_total extract_times_def
        rx_bytes_of_def)

lemma demo_sync_failed:
  "fst (sendRequest demo_loads (demo_run 1) demo_net [Raw 3, Raw 7, Raw 9]) =
     Inl (RunFailed ''warn'' [''Waf: done'', demo_line])"
  by (simp add: sendRequest_def demo_net_def demo_ids demo_run_def Let_def)

subsection \<open>The keys of the synchronous result\<close>

lemma sync_loop_keys:
  assumes "sync_loop st ids es Map.empty = Inr out"
  shows "dom out = (\<lambda>e. ids ! nat (local_of e)) `
                     {e \<in> set es. 0 \<le> local_of e \<and> local_of e < int (length ids)}"
  using sync_loop_dom [of st ids es Map.empty] assms by auto

text \<open>
  Claim C4, as the code has it. On a non-empty active set a successful \<^verbatim>\<open>sendRequest\<close>
  returns a dictionary whose keys are exactly the logical identifiers \<open>ids[local]\<close> of
  the local indices the simulator reported inside the range: at most one metric per
  requested identifier, none for an identifier outside the request, and none for a
  requested client the simulator left out.
\<close>

theorem sendRequest_keys:
  assumes "active_ids_of (num_clients s) array = Inr ids"
      and "ids \<noteq> []"
      and "sendRequest loads run s array = (Inr out, s')"
  shows "(\<exists>data. parse_last_json loads (stdout (run (cmd_of s (length ids)))) = Inr data
            \<and> dom out = (\<lambda>e. ids ! nat (local_of e)) `
                  {e \<in> set (client_results data).
                     0 \<le> local_of e \<and> local_of e < int (length ids)})
         \<and> dom out \<subseteq> set ids"
proof -
  let ?p = "run (cmd_of s (length ids))"
  from assms have rc: "returncode ?p = 0"
    by (auto simp: sendRequest_def Let_def split: if_splits)
  from assms rc obtain data where
    data: "parse_last_json loads (stdout ?p) = Inr data"
    and loop: "sync_loop (sim_time s) ids (client_results data) Map.empty = Inr out"
    by (auto simp: sendRequest_def Let_def split: sum.splits)
  from loop have keys: "dom out = (\<lambda>e. ids ! nat (local_of e)) `
      {e \<in> set (client_results data). 0 \<le> local_of e \<and> local_of e < int (length ids)}"
    by (rule sync_loop_keys)
  have "dom out \<subseteq> set ids"
  proof
    fix k assume "k \<in> dom out"
    with keys obtain e where "k = ids ! nat (local_of e)" "0 \<le> local_of e"
      "local_of e < int (length ids)" by auto
    then show "k \<in> set ids" by simp
  qed
  with data keys show ?thesis by blast
qed

theorem sendRequest_keys_witness:
  "active_ids_of (num_clients demo_net) [Raw 3, Raw 7, Raw 9] = Inr [3, 7, 9]
   \<and> dom (projr (fst (sendRequest demo_loads (demo_run 0) demo_net [Raw 3, Raw 7, Raw 9])))
       \<subseteq> set [3, 7, 9]"
proof -
  have h1: "active_ids_of (num_clients demo_net) [Raw 3, Raw 7, Raw 9] = Inr [3, 7, 9]"
    by (simp add: demo_net_def demo_ids)
  have h2: "[3, 7, 9] \<noteq> ([] :: int list)" by simp
  note h3 = demo_sync
  from sendRequest_keys [OF h1 h2 h3] h1 show ?thesis
    by (simp add: demo_sync)
qed

theorem sendRequest_omits_unreported:
  "active_ids_of (num_clients demo_net) [Raw 3, Raw 7, Raw 9] = Inr [3, 7, 9]
   \<and> \<not> isl (fst (sendRequest demo_loads (demo_run 0) demo_net [Raw 3, Raw 7, Raw 9]))
   \<and> projr (fst (sendRequest demo_loads (demo_run 0) demo_net [Raw 3, Raw 7, Raw 9])) 7 = None"
proof -
  have "active_ids_of (num_clients demo_net) [Raw 3, Raw 7, Raw 9] = Inr [3, 7, 9]"
    by (simp add: demo_net_def demo_ids)
  moreover have
    "\<not> isl (fst (sendRequest demo_loads (demo_run 0) demo_net [Raw 3, Raw 7, Raw 9]))"
    "projr (fst (sendRequest demo_loads (demo_run 0) demo_net [Raw 3, Raw 7, Raw 9])) 7 = None"
    by (simp_all add: demo_sync)
  ultimately show ?thesis by blast
qed

subsection \<open>Polling a running process, and the timeout\<close>

lemma read_running:
  "proc s \<noteq> None \<Longrightarrow> exit_status e = None \<Longrightarrow> \<not> timed_out s e \<Longrightarrow>
   readAsyncResponse loads e s = (Inr InProgress, s)"
  by (simp add: readAsyncResponse_def)

text \<open>
  Claim C7. While the background process is alive and the deadline has not elapsed,
  every call of \<^verbatim>\<open>readAsyncResponse\<close> returns the in-progress marker and leaves the
  object as it was, however many calls are made: never the end sentinel, never a record.
\<close>

theorem poll_in_progress:
  assumes "proc s \<noteq> None"
      and "list_all (\<lambda>e. exit_status e = None \<and> \<not> timed_out s e) es"
  shows "polls loads s es = (replicate (length es) (Inr InProgress), s)"
  using assms(2)
proof (induction es)
  case Nil
  show ?case by simp
next
  case (Cons e es)
  then have "readAsyncResponse loads e s = (Inr InProgress, s)"
    using assms(1) by (simp add: read_running)
  with Cons show ?case by simp
qed

theorem poll_in_progress_witness:
  "proc demo_started \<noteq> None
   \<and> list_all (\<lambda>e. exit_status e = None \<and> \<not> timed_out demo_started e)
        [demo_running, demo_running, demo_running]
   \<and> polls demo_loads demo_started [demo_running, demo_running, demo_running] =
       ([Inr InProgress, Inr InProgress, Inr InProgress], demo_started)"
proof -
  have h1: "proc demo_started \<noteq> None" by (simp add: demo_started_eq)
  have h2: "list_all (\<lambda>e. exit_status e = None \<and> \<not> timed_out demo_started e)
              [demo_running, demo_running, demo_running]"
    by (simp add: demo_running_def timed_out_def demo_started_eq)
  from poll_in_progress [OF h1 h2, of demo_loads] h1 h2 show ?thesis
    by (simp add: numeral_3_eq_3)
qed

lemma on_timeout_built:
  "\<exists>Q. on_timeout loads e s = serve (s\<lparr>proc := None, async_queue := async_queue s @ Q\<rparr>)
       \<and> list_all2 (\<lambda>l r. fst r = async_ids s ! l \<and>
            (case results_of (client_results (tolerant_parse loads (comm_stdout e))) (int l) of
               None \<Rightarrow> snd r = synthesized (sim_time s)
             | Some ent \<Rightarrow> if entry_nonempty ent then async_metric (sim_time s) ent = Inr (snd r)
                           else snd r = synthesized (sim_time s)))
            [0..<length (async_ids s)] Q"
proof -
  let ?res = "results_of (client_results (tolerant_parse loads (comm_stdout e)))"
  obtain Q where loop: "timeout_loop (sim_time s) (async_ids s) ?res [0..<length (async_ids s)]
                          (async_queue s) = (None, async_queue s @ Q)"
    and all: "list_all2 (\<lambda>l r. fst r = async_ids s ! l \<and>
            (case ?res (int l) of
               None \<Rightarrow> snd r = synthesized (sim_time s)
             | Some ent \<Rightarrow> if entry_nonempty ent then async_metric (sim_time s) ent = Inr (snd r)
                           else snd r = synthesized (sim_time s)))
            [0..<length (async_ids s)] Q"
    using timeout_loop_built [of "sim_time s" "async_ids s" ?res "[0..<length (async_ids s)]"
            "async_queue s"] by blast
  from loop have "on_timeout loads e s = serve (s\<lparr>proc := None, async_queue := async_queue s @ Q\<rparr>)"
    by (simp add: on_timeout_def Let_def)
  with all show ?thesis by blast
qed

lemma list_all2_fst_nths:
  "list_all2 (\<lambda>l r. fst r = ids ! l \<and> P l r) ls Q \<Longrightarrow> map fst Q = map ((!) ids) ls"
  by (induction ls Q rule: list_all2_induct) auto

text \<open>
  Claim C5. On the timeout path (process still alive, deadline passed) the call appends
  to the queue one record per active client, keyed by the logical identifiers in the
  order of the active set, and then serves from the queue. The record of every client
  whose local index has no entry in the parsed output is the synthesized one: start 0,
  end the configured simulated duration, throughput 0.
\<close>

theorem timeout_synthesizes:
  assumes "proc s \<noteq> None" and "exit_status e = None" and "timed_out s e"
  shows "\<exists>Q. readAsyncResponse loads e s =
               serve (s\<lparr>proc := None, async_queue := async_queue s @ Q\<rparr>)
           \<and> map fst Q = async_ids s
           \<and> (\<forall>l < length (async_ids s).
                 results_of (client_results (tolerant_parse loads (comm_stdout e))) (int l) = None
                 \<longrightarrow> Q ! l = (async_ids s ! l,
                               \<lparr>startTime = 0, endTime = sim_time s, athroughput = 0\<rparr>))"
proof -
  let ?res = "results_of (client_results (tolerant_parse loads (comm_stdout e)))"
  let ?n = "length (async_ids s)"
  obtain Q where step: "on_timeout loads e s =
      serve (s\<lparr>proc := None, async_queue := async_queue s @ Q\<rparr>)"
    and all: "list_all2 (\<lambda>l r. fst r = async_ids s ! l \<and>
            (case ?res (int l) of
               None \<Rightarrow> snd r = synthesized (sim_time s)
             | Some ent \<Rightarrow> if entry_nonempty ent then async_metric (sim_time s) ent = Inr (snd r)
                           else snd r = synthesized (sim_time s)))
            [0..<?n] Q"
    using on_timeout_built by blast
  from assms have "readAsyncResponse loads e s = on_timeout loads e s"
    by (auto simp: readAsyncResponse_def)
  with step have r: "readAsyncResponse loads e s =
      serve (s\<lparr>proc := None, async_queue := async_queue s @ Q\<rparr>)" by simp
  from all have "map fst Q = map ((!) (async_ids s)) [0..<?n]"
    by (rule list_all2_fst_nths)
  then have keys: "map fst Q = async_ids s" by (simp add: map_nth)
  from all have len: "length Q = ?n" by (auto dest: list_all2_lengthD)
  have synth: "Q ! l = (async_ids s ! l, \<lparr>startTime = 0, endTime = sim_time s, athroughput = 0\<rparr>)"
    if l: "l < ?n" and none: "?res (int l) = None" for l
  proof -
    from l have "l < length [0..<?n]" by simp
    from list_all2_nthD [OF all this] l
    have "fst (Q ! l) = async_ids s ! l \<and>
        (case ?res (int l) of
               None \<Rightarrow> snd (Q ! l) = synthesized (sim_time s)
             | Some ent \<Rightarrow> if entry_nonempty ent then async_metric (sim_time s) ent = Inr (snd (Q ! l))
                           else snd (Q ! l) = synthesized (sim_time s))"
      by simp
    with l none have "fst (Q ! l) = async_ids s ! l" "snd (Q ! l) = synthesized (sim_time s)"
      by simp_all
    then show ?thesis by (simp add: synthesized_def prod_eq_iff)
  qed
  from r keys synth show ?thesis by blast
qed

lemma demo_late_results:
  "results_of (client_results (tolerant_parse demo_loads (comm_stdout demo_late))) (int 1) = None"
  by (simp add: demo_late_def demo_parse_late client_results_def results_of_def)

theorem timeout_synthesizes_witness:
  "proc demo_started \<noteq> None \<and> exit_status demo_late = None \<and> timed_out demo_started demo_late
   \<and> results_of (client_results (tolerant_parse demo_loads (comm_stdout demo_late))) (int 1) = None
   \<and> (\<exists>Q. readAsyncResponse demo_loads demo_late demo_started =
              serve (demo_started\<lparr>proc := None, async_queue := async_queue demo_started @ Q\<rparr>)
          \<and> map fst Q = [3, 7, 9]
          \<and> Q ! 1 = (7, \<lparr>startTime = 0, endTime = 0.8, athroughput = 0\<rparr>))"
proof -
  have h1: "proc demo_started \<noteq> None" by (simp add: demo_started_eq)
  have h2: "exit_status demo_late = None" by (simp add: demo_late_def)
  have h3: "timed_out demo_started demo_late"
    by (simp add: timed_out_def demo_late_def demo_started_eq)
  have ids: "async_ids demo_started = [3, 7, 9]" "sim_time demo_started = 0.8"
    by (simp_all add: demo_started_eq)
  from timeout_synthesizes [OF h1 h2 h3, of demo_loads] obtain Q where
    r: "readAsyncResponse demo_loads demo_late demo_started =
          serve (demo_started\<lparr>proc := None, async_queue := async_queue demo_started @ Q\<rparr>)"
    and k: "map fst Q = async_ids demo_started"
    and syn: "\<forall>l < length (async_ids demo_started).
        results_of (client_results (tolerant_parse demo_loads (comm_stdout demo_late))) (int l) = None
        \<longrightarrow> Q ! l = (async_ids demo_started ! l,
               \<lparr>startTime = 0, endTime = sim_time demo_started, athroughput = 0\<rparr>)"
    by blast
  have "(1::nat) < length (async_ids demo_started)" by (simp add: ids)
  with syn demo_late_results
  have "Q ! 1 = (async_ids demo_started ! 1,
               \<lparr>startTime = 0, endTime = sim_time demo_started, athroughput = 0\<rparr>)"
    by blast
  then have "Q ! 1 = (7, \<lparr>startTime = 0, endTime = 0.8, athroughput = 0\<rparr>)"
    by (simp add: ids)
  with r k ids h1 h2 h3 demo_late_results show ?thesis by auto
qed

subsection \<open>Draining\<close>

lemma on_finished_built:
  assumes "parse_last_json loads (comm_stdout e) = Inr data"
  shows "\<exists>Q. on_finished loads e s = serve (s\<lparr>proc := None, async_queue := async_queue s @ Q\<rparr>)
       \<and> map fst Q = map ((!) (async_ids s))
            (filter (reported (results_of (client_results data))) [0..<length (async_ids s)])"
proof -
  let ?res = "results_of (client_results data)"
  obtain Q where loop: "normal_loop (sim_time s) (async_ids s) ?res [0..<length (async_ids s)]
                          (async_queue s) = (None, async_queue s @ Q)"
    and all: "list_all2 (\<lambda>l r. fst r = async_ids s ! l \<and>
                 (\<exists>ent. ?res (int l) = Some ent \<and> async_metric (sim_time s) ent = Inr (snd r)))
            (filter (reported ?res) [0..<length (async_ids s)]) Q"
    using normal_loop_built [of "sim_time s" "async_ids s" ?res "[0..<length (async_ids s)]"
            "async_queue s"] by blast
  from loop assms
  have "on_finished loads e s = serve (s\<lparr>proc := None, async_queue := async_queue s @ Q\<rparr>)"
    by (simp add: on_finished_def Let_def)
  moreover from all have "map fst Q = map ((!) (async_ids s))
      (filter (reported ?res) [0..<length (async_ids s)])"
    by (rule list_all2_fst_nths)
  ultimately show ?thesis by blast
qed

lemma reported_results_of: "reported (results_of es) l \<longleftrightarrow> int l \<in> local_of ` set es"
proof -
  have "reported (results_of es) l \<longleftrightarrow> results_of es (int l) \<noteq> None"
    by (auto simp: reported_def results_of_nonempty split: option.splits)
  also have "\<dots> \<longleftrightarrow> int l \<in> dom (results_of es)" by (simp add: dom_def)
  finally show ?thesis by (simp add: results_of_dom)
qed

lemma drained_after_release:
  assumes "proc s1 = None"
      and "readAsyncResponse loads e s = serve s1"
      and "length es = length (async_queue s1)"
  shows "drained_by loads s (e # es) (async_queue s1)"
proof -
  from assms(1) have "readAsyncResponse loads e s1 = serve s1" by (rule read_released)
  with assms(2) have "polls loads s (e # es) = polls loads s1 (e # es)" by simp
  moreover from polls_released [OF assms(1), of loads "e # es"] assms(3)
  have "fst (polls loads s1 (e # es)) = map (\<lambda>r. Inr (Data r)) (async_queue s1) @ [Inr End]"
    by simp
  ultimately show ?thesis by (simp add: drained_by_def)
qed

text \<open>
  Claim C1, as the code has it. Starting from a held process handle and an empty queue
  (the state \<^verbatim>\<open>sendAsyncRequest\<close> leaves): on the timeout path, polling yields exactly one
  record per client of the active set, in its order, and then the end sentinel; after a
  normal exit with a parsed summary, polling yields one record for each active client
  whose local index is the id of a reported entry, in the order of the active set, and
  then the end sentinel. A client the simulator did not report gets no record there.
\<close>

theorem async_drain_records:
  assumes "proc s \<noteq> None" and "async_queue s = []"
  shows "(exit_status e = None \<and> timed_out s e \<longrightarrow>
            (\<exists>Q. map fst Q = async_ids s
                \<and> (\<forall>es. length es = length Q \<longrightarrow> drained_by loads s (e # es) Q)))
       \<and> (\<forall>data. exit_status e \<noteq> None \<and> parse_last_json loads (comm_stdout e) = Inr data \<longrightarrow>
            (\<exists>Q. map fst Q = map ((!) (async_ids s))
                     (filter (\<lambda>l. int l \<in> local_of ` set (client_results data))
                        [0..<length (async_ids s)])
                \<and> (\<forall>es. length es = length Q \<longrightarrow> drained_by loads s (e # es) Q)))"
proof (intro conjI impI allI)
  assume a: "exit_status e = None \<and> timed_out s e"
  from on_timeout_built [of loads e s] assms(2) obtain Q where
    step: "on_timeout loads e s = serve (s\<lparr>proc := None, async_queue := Q\<rparr>)"
    and all: "list_all2 (\<lambda>l r. fst r = async_ids s ! l \<and>
            (case results_of (client_results (tolerant_parse loads (comm_stdout e))) (int l) of
               None \<Rightarrow> snd r = synthesized (sim_time s)
             | Some ent \<Rightarrow> if entry_nonempty ent then async_metric (sim_time s) ent = Inr (snd r)
                           else snd r = synthesized (sim_time s)))
            [0..<length (async_ids s)] Q"
    by auto
  let ?s1 = "s\<lparr>proc := None, async_queue := Q\<rparr>"
  from assms(1) a have "readAsyncResponse loads e s = on_timeout loads e s"
    by (auto simp: readAsyncResponse_def)
  with step have r: "readAsyncResponse loads e s = serve ?s1" by simp
  from all have "map fst Q = map ((!) (async_ids s)) [0..<length (async_ids s)]"
    by (rule list_all2_fst_nths)
  then have keys: "map fst Q = async_ids s" by (simp add: map_nth)
  have "drained_by loads s (e # es) Q" if "length es = length Q" for es
    using drained_after_release [of ?s1 loads e s es] r that by simp
  with keys show "\<exists>Q. map fst Q = async_ids s
                \<and> (\<forall>es. length es = length Q \<longrightarrow> drained_by loads s (e # es) Q)"
    by blast
next
  fix data
  assume a: "exit_status e \<noteq> None \<and> parse_last_json loads (comm_stdout e) = Inr data"
  then have p: "parse_last_json loads (comm_stdout e) = Inr data" by simp
  from on_finished_built [OF p, of s] assms(2) obtain Q where
    step: "on_finished loads e s = serve (s\<lparr>proc := None, async_queue := Q\<rparr>)"
    and keys0: "map fst Q = map ((!) (async_ids s))
            (filter (reported (results_of (client_results data))) [0..<length (async_ids s)])"
    by auto
  let ?s1 = "s\<lparr>proc := None, async_queue := Q\<rparr>"
  from assms(1) a have "readAsyncResponse loads e s = on_finished loads e s"
    by (auto simp: readAsyncResponse_def)
  with step have r: "readAsyncResponse loads e s = serve ?s1" by simp
  have "reported (results_of (client_results data)) =
          (\<lambda>l. int l \<in> local_of ` set (client_results data))"
    by (rule ext) (rule reported_results_of)
  with keys0 have keys: "map fst Q = map ((!) (async_ids s))
      (filter (\<lambda>l. int l \<in> local_of ` set (client_results data)) [0..<length (async_ids s)])"
    by simp
  have "drained_by loads s (e # es) Q" if "length es = length Q" for es
    using drained_after_release [of ?s1 loads e s es] r that by simp
  with keys show "\<exists>Q. map fst Q = map ((!) (async_ids s))
                     (filter (\<lambda>l. int l \<in> local_of ` set (client_results data))
                        [0..<length (async_ids s)])
                \<and> (\<forall>es. length es = length Q \<longrightarrow> drained_by loads s (e # es) Q)"
    by blast
qed

lemma demo_reported_locals:
  "filter (\<lambda>l. int l \<in> local_of ` set (client_results (Some demo_entries))) [0..<3] = [0, 2]"
  by (simp add: upt3 client_results_def demo_entries_def local_of_def)

theorem async_drain_records_witness:
  "proc demo_started \<noteq> None \<and> async_queue demo_started = []
   \<and> exit_status demo_late = None \<and> timed_out demo_started demo_late
   \<and> (\<exists>Q. map fst Q = [3, 7, 9]
          \<and> drained_by demo_loads demo_started
               [demo_late, demo_running, demo_running, demo_running] Q)
   \<and> exit_status (demo_exited 0) \<noteq> None
   \<and> parse_last_json demo_loads (comm_stdout (demo_exited 0)) = Inr (Some demo_entries)
   \<and> (\<exists>Q. map fst Q = [3, 9]
          \<and> drained_by demo_loads demo_started [demo_exited 0, demo_running, demo_running] Q)"
proof -
  have h1: "proc demo_started \<noteq> None" by (simp add: demo_started_eq)
  have h2: "async_queue demo_started = []" by (simp add: demo_started_eq)
  have t1: "exit_status demo_late = None" by (simp add: demo_late_def)
  have t2: "timed_out demo_started demo_late"
    by (simp add: timed_out_def demo_late_def demo_started_eq)
  have n1: "exit_status (demo_exited 0) \<noteq> None" by (simp add: demo_exited_def)
  have n2: "parse_last_json demo_loads (comm_stdout (demo_exited 0)) = Inr (Some demo_entries)"
    by (simp add: demo_exited_def demo_parse)
  have ids: "async_ids demo_started = [3, 7, 9]" by (simp add: demo_started_eq)
  from async_drain_records [OF h1 h2, of demo_late demo_loads] t1 t2 obtain Q1 where
    k1: "map fst Q1 = async_ids demo_started"
    and d1: "\<forall>es. length es = length Q1 \<longrightarrow> drained_by demo_loads demo_started (demo_late # es) Q1"
    by blast
  from k1 have "length (map fst Q1) = 3" by (simp add: ids)
  then have "length [demo_running, demo_running, demo_running] = length Q1" by simp
  with d1 have "drained_by demo_loads demo_started
                  (demo_late # [demo_running, demo_running, demo_running]) Q1" by blast
  moreover from k1 ids have "map fst Q1 = [3, 7, 9]" by simp
  ultimately have timeout: "\<exists>Q. map fst Q = [3, 7, 9]
          \<and> drained_by demo_loads demo_started
               [demo_late, demo_running, demo_running, demo_running] Q"
    by (auto intro: exI [of _ Q1])
  from async_drain_records [OF h1 h2, of "demo_exited 0" demo_loads] n1 n2 obtain Q2 where
    k2: "map fst Q2 = map ((!) (async_ids demo_started))
           (filter (\<lambda>l. int l \<in> local_of ` set (client_results (Some demo_entries)))
              [0..<length (async_ids demo_started)])"
    and d2: "\<forall>es. length es = length Q2 \<longrightarrow>
                drained_by demo_loads demo_started (demo_exited 0 # es) Q2"
    by blast
  have len: "length (async_ids demo_started) = 3" by (simp add: ids)
  from k2 have "map fst Q2 = map ((!) (async_ids demo_started)) [0, 2]"
    by (simp only: len demo_reported_locals)
  then have k2': "map fst Q2 = [3, 9]" by (simp add: ids)
  then have "length (map fst Q2) = 2" by simp
  then have "length [demo_running, demo_running] = length Q2" by simp
  with d2 have "drained_by demo_loads demo_started
                  (demo_exited 0 # [demo_running, demo_running]) Q2" by blast
  with k2' have normal: "\<exists>Q. map fst Q = [3, 9]
          \<and> drained_by demo_loads demo_started [demo_exited 0, demo_running, demo_running] Q"
    by (auto intro: exI [of _ Q2])
  from h1 h2 t1 t2 timeout n1 n2 normal show ?thesis by (intro conjI)
qed

lemma demo_draining_eq:
  "demo_draining =
     demo_started\<lparr>proc := None,
                   async_queue := [(9, \<lparr>startTime = 0, endTime = 1, athroughput = 2000\<rparr>)]\<rparr>"
  by (simp add: demo_draining_def demo_exited_step)

lemma demo_draining_poll:
  "readAsyncResponse demo_loads e demo_draining =
     (Inr (Data (9, \<lparr>startTime = 0, endTime = 1, athroughput = 2000\<rparr>)),
      demo_started\<lparr>proc := None, async_queue := []\<rparr>)"
  by (simp add: demo_draining_eq read_released serve_def)

lemma demo_drained_poll:
  "readAsyncResponse demo_loads e (demo_started\<lparr>proc := None, async_queue := []\<rparr>) =
     (Inr End, demo_started\<lparr>proc := None, async_queue := []\<rparr>)"
  by (simp add: read_released serve_def)

text \<open>The round of the example after a normal exit: three clients were requested, two
  records are delivered, then the end sentinel.\<close>

theorem async_normal_exit_skips_unreported:
  "async_ids demo_started = [3, 7, 9]
   \<and> exit_status (demo_exited 0) = Some 0
   \<and> fst (polls demo_loads demo_started [demo_exited 0, demo_exited 0, demo_exited 0]) =
       [Inr (Data (3, \<lparr>startTime = 0, endTime = 0.5, athroughput = 2000\<rparr>)),
        Inr (Data (9, \<lparr>startTime = 0, endTime = 1, athroughput = 2000\<rparr>)),
        Inr End]"
proof -
  have "async_ids demo_started = [3, 7, 9]" by (simp add: demo_started_eq)
  moreover have "exit_status (demo_exited 0) = Some 0" by (simp add: demo_exited_def)
  moreover have
    "fst (polls demo_loads demo_started [demo_exited 0, demo_exited 0, demo_exited 0]) =
       [Inr (Data (3, \<lparr>startTime = 0, endTime = 0.5, athroughput = 2000\<rparr>)),
        Inr (Data (9, \<lparr>startTime = 0, endTime = 1, athroughput = 2000\<rparr>)),
        Inr End]"
    by (simp add: demo_exited_step demo_draining_eq [symmetric] demo_draining_poll
          demo_drained_poll)
  ultimately show ?thesis by blast
qed

subsection \<open>Starting a round\<close>

text \<open>
  Claim C2, as the code has it. Whenever the process handle is still held (the process
  is running, or has exited and has not been polled yet), \<^verbatim>\<open>sendAsyncRequest\<close> fails
  with the usage error, starts nothing and leaves the object as it was. The guard reads
  the handle only, not the queue.
\<close>

theorem start_refused_while_handle_held:
  assumes "proc s \<noteq> None"
  shows "sendAsyncRequest t s array = (Inl UsageError, s)"
  using assms by (simp add: sendAsyncRequest_def)

theorem start_refused_while_handle_held_witness:
  "proc demo_started \<noteq> None
   \<and> sendAsyncRequest 2 demo_started [Raw 5] = (Inl UsageError, demo_started)"
proof -
  have h: "proc demo_started \<noteq> None" by (simp add: demo_started_eq)
  from start_refused_while_handle_held [OF h, of 2 "[Raw 5]"] h show ?thesis by simp
qed

lemma demo_ids5: "active_ids_of 10 [Raw 5] = Inr [5]"
  by (simp add: active_ids_of_def parse_clients_def)

text \<open>The round of the example while draining: the handle is released, one record is
  still queued, and a new round starts.\<close>

theorem start_accepted_while_draining:
  "proc demo_draining = None
   \<and> async_queue demo_draining = [(9, \<lparr>startTime = 0, endTime = 1, athroughput = 2000\<rparr>)]
   \<and> fst (sendAsyncRequest 2 demo_draining [Raw 5]) = Inr ()
   \<and> spawned (snd (sendAsyncRequest 2 demo_draining [Raw 5])) =
       [\<lparr>nodeNum = 10, clients = 3, modelBytes = 1600, simTime = 0.8\<rparr>,
        \<lparr>nodeNum = 10, clients = 1, modelBytes = 1600, simTime = 0.8\<rparr>]"
  by (simp add: demo_draining_eq demo_started_eq sendAsyncRequest_def demo_ids5 cmd_of_def Let_def)

text \<open>
  Claim C10. With the handle released and records of the previous round still queued,
  \<^verbatim>\<open>sendAsyncRequest\<close> does not raise the usage error: for every well-formed array it
  succeeds, stores the new active identifiers, empties the queue and sets the deadline
  anew (none for an empty request), so the undelivered records are gone.
\<close>

theorem start_while_draining_discards:
  assumes "proc s = None" and "async_queue s \<noteq> []"
      and "active_ids_of (num_clients s) array = Inr ids"
  shows "fst (sendAsyncRequest t s array) = Inr ()
       \<and> async_ids (snd (sendAsyncRequest t s array)) = ids
       \<and> async_queue (snd (sendAsyncRequest t s array)) = []
       \<and> deadline (snd (sendAsyncRequest t s array)) =
           (if ids = [] then None else Some (t + max 10 (4 * sim_time s)))
       \<and> proc (snd (sendAsyncRequest t s array)) =
           (if ids = [] then None else Some (cmd_of s (length ids)))"
  using assms by (simp add: sendAsyncRequest_def Let_def)

theorem start_while_draining_discards_witness:
  "proc demo_draining = None \<and> async_queue demo_draining \<noteq> []
   \<and> active_ids_of (num_clients demo_draining) [Raw 5] = Inr [5]
   \<and> fst (sendAsyncRequest 2 demo_draining [Raw 5]) = Inr ()
   \<and> async_ids (snd (sendAsyncRequest 2 demo_draining [Raw 5])) = [5]
   \<and> async_queue (snd (sendAsyncRequest 2 demo_draining [Raw 5])) = []
   \<and> deadline (snd (sendAsyncRequest 2 demo_draining [Raw 5])) = Some 12"
proof -
  have h1: "proc demo_draining = None" by (simp add: demo_draining_eq)
  have h2: "async_queue demo_draining \<noteq> []" by (simp add: demo_draining_eq)
  have h3: "active_ids_of (num_clients demo_draining) [Raw 5] = Inr [5]"
    by (simp add: demo_draining_eq demo_started_eq demo_ids5)
  have st: "sim_time demo_draining = 0.8" by (simp add: demo_draining_eq demo_started_eq)
  from start_while_draining_discards [OF h1 h2 h3, of 2] h1 h2 h3 show ?thesis
    by (simp add: st)
qed

subsection \<open>Exit status\<close>

lemma on_finished_ignores_status:
  "on_finished loads (e\<lparr>exit_status := x\<rparr>) s = on_finished loads e s"
  by (simp add: on_finished_def)

text \<open>
  Claim C3 at a failing input. The simulator exits with status 1 after writing its
  summary. The synchronous runner reports the failure with both captured streams; the
  asynchronous poll that observes the same exit reports nothing and delivers a record,
  and in general its answer after an exit does not depend on the status.
\<close>

theorem nonzero_exit_sync_reported_async_not:
  "fst (sendRequest demo_loads (demo_run 1) demo_net [Raw 3, Raw 7, Raw 9]) =
     Inl (RunFailed ''warn'' [''Waf: done'', demo_line])
   \<and> exit_status (demo_exited 1) = Some 1
   \<and> fst (readAsyncResponse demo_loads (demo_exited 1) demo_started) =
       Inr (Data (3, \<lparr>startTime = 0, endTime = 0.5, athroughput = 2000\<rparr>))
   \<and> readAsyncResponse loads (e\<lparr>exit_status := Some rc\<rparr>) s =
       readAsyncResponse loads (e\<lparr>exit_status := Some 0\<rparr>) s"
proof -
  have "exit_status (demo_exited 1) = Some 1" by (simp add: demo_exited_def)
  moreover have "readAsyncResponse loads (e\<lparr>exit_status := Some rc\<rparr>) s =
       readAsyncResponse loads (e\<lparr>exit_status := Some 0\<rparr>) s"
    by (simp add: readAsyncResponse_def on_finished_ignores_status)
  ultimately show ?thesis by (simp add: demo_sync_failed demo_exited_step)
qed

subsection \<open>Empty requests\<close>

lemma all_zero_filter:
  "list_all (\<lambda>x. x = Raw 0) array \<Longrightarrow> filter (\<lambda>p. truthy (snd p)) (enumerate k array) = []"
  by (induction array arbitrary: k) auto

lemma all_zero_in_01: "list_all (\<lambda>x. x = Raw 0) array \<Longrightarrow> list_all in_01 array"
  by (induction array) auto

lemma empty_active_ids:
  assumes "array = [] \<or> (int (length array) = n \<and> list_all (\<lambda>x. x = Raw 0) array)"
  shows "active_ids_of n array = Inr []"
  using assms
  by (auto simp: active_ids_of_def parse_clients_def all_zero_filter all_zero_in_01)

text \<open>
  Claim C9. For an empty list and for an all-zero bitmap alike, \<^verbatim>\<open>sendRequest\<close>
  returns the empty dictionary and \<^verbatim>\<open>sendAsyncRequest\<close> launches no process either;
  called with no handle held, it records an empty session (no identifiers, empty queue,
  no deadline, no handle), and the next \<^verbatim>\<open>readAsyncResponse\<close> returns the end
  sentinel.
\<close>

theorem empty_request_no_process:
  assumes "array = [] \<or> (int (length array) = num_clients s \<and> list_all (\<lambda>x. x = Raw 0) array)"
  shows "sendRequest loads run s array = (Inr Map.empty, s)
       \<and> spawned (snd (sendAsyncRequest t s array)) = spawned s
       \<and> (proc s = None \<longrightarrow>
            sendAsyncRequest t s array =
              (Inr (), s\<lparr>async_ids := [], async_queue := [], deadline := None, proc := None\<rparr>)
            \<and> readAsyncResponse loads e (snd (sendAsyncRequest t s array)) =
                (Inr End, snd (sendAsyncRequest t s array)))"
proof -
  from assms have ids: "active_ids_of (num_clients s) array = Inr []"
    by (rule empty_active_ids)
  have sync: "sendRequest loads run s array = (Inr Map.empty, s)"
    by (simp add: sendRequest_def ids)
  have nospawn: "spawned (snd (sendAsyncRequest t s array)) = spawned s"
    by (simp add: sendAsyncRequest_def ids)
  have async: "sendAsyncRequest t s array =
      (Inr (), s\<lparr>async_ids := [], async_queue := [], deadline := None, proc := None\<rparr>)"
    if "proc s = None"
    using that by (simp add: sendAsyncRequest_def ids)
  have "readAsyncResponse loads e (snd (sendAsyncRequest t s array)) =
          (Inr End, snd (sendAsyncRequest t s array))" if "proc s = None"
    by (simp add: async [OF that] readAsyncResponse_def)
  with sync nospawn async show ?thesis by simp
qed

theorem empty_request_no_process_witness:
  "int (length (replicate 10 (Raw 0))) = num_clients demo_net
   \<and> list_all (\<lambda>x. x = Raw 0) (replicate 10 (Raw 0))
   \<and> proc demo_net = None
   \<and> sendRequest demo_loads (demo_run 0) demo_net (replicate 10 (Raw 0)) = (Inr Map.empty, demo_net)
   \<and> spawned (snd (sendAsyncRequest 0 demo_net (replicate 10 (Raw 0)))) = []
   \<and> fst (readAsyncResponse demo_loads demo_running
            (snd (sendAsyncRequest 0 demo_net (replicate 10 (Raw 0))))) = Inr End
   \<and> sendRequest demo_loads (demo_run 0) demo_net [] = (Inr Map.empty, demo_net)
   \<and> fst (readAsyncResponse demo_loads demo_running (snd (sendAsyncRequest 0 demo_net []))) =
       Inr End"
proof -
  have b1: "int (length (replicate 10 (Raw 0))) = num_clients demo_net"
    by (simp add: demo_net_def)
  have b2: "list_all (\<lambda>x. x = Raw 0) (replicate 10 (Raw 0))"
    by (simp add: list_all_iff)
  have h: "replicate 10 (Raw 0) = [] \<or>
           (int (length (replicate 10 (Raw 0))) = num_clients demo_net
            \<and> list_all (\<lambda>x. x = Raw 0) (replicate 10 (Raw 0)))"
    using b1 b2 by blast
  have h': "([] :: arg list) = [] \<or>
           (int (length ([] :: arg list)) = num_clients demo_net
            \<and> list_all (\<lambda>x. x = Raw 0) [])"
    by simp
  have p: "proc demo_net = None" "spawned demo_net = []" by (simp_all add: demo_net_def)
  note bitmap = empty_request_no_process [OF h, of demo_loads "demo_run 0" 0 demo_running]
  note nolist = empty_request_no_process [OF h', of demo_loads "demo_run 0" 0 demo_running]
  from bitmap have a1:
    "sendRequest demo_loads (demo_run 0) demo_net (replicate 10 (Raw 0)) = (Inr Map.empty, demo_net)"
    by (rule conjunct1)
  from bitmap have "spawned (snd (sendAsyncRequest 0 demo_net (replicate 10 (Raw 0)))) =
      spawned demo_net" by blast
  then have a2: "spawned (snd (sendAsyncRequest 0 demo_net (replicate 10 (Raw 0)))) = []"
    by (simp only: p)
  from bitmap p(1) have "readAsyncResponse demo_loads demo_running
        (snd (sendAsyncRequest 0 demo_net (replicate 10 (Raw 0)))) =
      (Inr End, snd (sendAsyncRequest 0 demo_net (replicate 10 (Raw 0))))" by blast
  then have a3: "fst (readAsyncResponse demo_loads demo_running
        (snd (sendAsyncRequest 0 demo_net (replicate 10 (Raw 0))))) = Inr End"
    by (simp only: fst_conv)
  from nolist have a4:
    "sendRequest demo_loads (demo_run 0) demo_net [] = (Inr Map.empty, demo_net)"
    by (rule conjunct1)
  from nolist p(1) have "readAsyncResponse demo_loads demo_running
        (snd (sendAsyncRequest 0 demo_net [])) =
      (Inr End, snd (sendAsyncRequest 0 demo_net []))" by blast
  then have a5: "fst (readAsyncResponse demo_loads demo_running
        (snd (sendAsyncRequest 0 demo_net []))) = Inr End"
    by (simp only: fst_conv)
  from b1 b2 p(1) a1 a2 a3 a4 a5 show ?thesis by (intro conjI)
qed

subsection \<open>Bitmap and list forms of the active set\<close>

lemma enumerate_nth: "enumerate 0 b = map (\<lambda>i. (i, b ! i)) [0..<length b]"
  by (metis enumerate_map_upt map_nth)

lemma bitmap_ids:
  assumes "int (length b) = n" and "list_all in_01 b"
  shows "active_ids_of n b = Inr (map int (filter (\<lambda>i. truthy (b ! i)) [0..<length b]))"
proof -
  have "map (\<lambda>p. int (fst p)) (filter (\<lambda>p. truthy (snd p)) (enumerate 0 b)) =
        map int (filter (\<lambda>i. truthy (b ! i)) [0..<length b])"
    unfolding enumerate_nth by (simp add: filter_map comp_def)
  with assms show ?thesis by (simp add: active_ids_of_def)
qed

lemma ascending_selected: "sorted_wrt (<) (map int (filter P [0..<m]))"
proof -
  have "sorted_wrt (<) (filter P [0..<m])" by (rule sorted_wrt_filter) simp
  then show ?thesis by (simp add: sorted_wrt_map)
qed

lemma map_err_py_int_Raw: "map_err py_int (map Raw ids) = Inr ids"
  by (induction ids) auto

lemma list_form_ids:
  assumes "\<not> bitmap_shaped n ids"
  shows "active_ids_of n (id_list_of ids) = Inr ids"
proof -
  have "list_all in_01 (map Raw ids) = list_all (\<lambda>i. i = 0 \<or> i = 1) ids"
    by (induction ids) auto
  with assms have "\<not> (int (length (map Raw ids)) = n \<and> list_all in_01 (map Raw ids))"
    by (simp add: bitmap_shaped_def)
  moreover have "parse_clients (map Raw ids) = Inr ids"
    by (cases ids) (simp_all add: parse_clients_def map_err_py_int_Raw)
  ultimately show ?thesis by (auto simp: active_ids_of_def id_list_of_def)
qed

lemma bitmap_of_shape: "length (bitmap_of n ids) = nat n" "list_all in_01 (bitmap_of n ids)"
  by (simp_all add: bitmap_of_def list_all_iff)

lemma bitmap_form_ids:
  assumes "sorted_wrt (<) ids" and "list_all (\<lambda>i. 0 \<le> i \<and> i < n) ids"
  shows "active_ids_of n (bitmap_of n ids) = Inr ids"
proof (cases "0 \<le> n")
  case False
  with assms(2) have "ids = []" by (cases ids) auto
  moreover from False have "bitmap_of n [] = []" by (simp add: bitmap_of_def)
  ultimately show ?thesis by (simp add: active_ids_of_def parse_clients_def)
next
  case True
  let ?sel = "map int (filter (\<lambda>i. int i \<in> set ids) [0..<nat n])"
  from True have len: "int (length (bitmap_of n ids)) = n" by (simp add: bitmap_of_shape)
  have "filter (\<lambda>i. truthy (bitmap_of n ids ! i)) [0..<length (bitmap_of n ids)] =
        filter (\<lambda>i. int i \<in> set ids) [0..<nat n]"
    by (rule filter_cong) (simp_all add: bitmap_of_shape, simp add: bitmap_of_def)
  with bitmap_ids [OF len bitmap_of_shape(2)]
  have r: "active_ids_of n (bitmap_of n ids) = Inr ?sel" by simp
  have "sorted_wrt (<) ?sel" by (rule ascending_selected)
  then have s1: "sorted ?sel" "distinct ?sel" by (simp_all add: strict_sorted_iff)
  from assms(1) have s2: "sorted ids" "distinct ids" by (simp_all add: strict_sorted_iff)
  have "set ?sel = set ids"
  proof
    show "set ?sel \<subseteq> set ids" by auto
    show "set ids \<subseteq> set ?sel"
    proof
      fix x assume x: "x \<in> set ids"
      with assms(2) have "0 \<le> x" "x < n" by (auto simp: list_all_iff)
      then have "nat x < nat n" "int (nat x) = x" by simp_all
      with x have "nat x \<in> set (filter (\<lambda>i. int i \<in> set ids) [0..<nat n])" by simp
      then have "int (nat x) \<in> set ?sel" by (simp only: set_map) (rule imageI)
      with \<open>int (nat x) = x\<close> show "x \<in> set ?sel" by simp
    qed
  qed
  with s1 s2 have "?sel = ids" by (rule sorted_distinct_set_unique)
  with r show ?thesis by simp
qed

text \<open>
  Claim C6, as the code has it. An active set given as a strictly ascending list of
  identifiers below the number of clients, and not itself of the shape of a bitmap
  (as many elements as there are clients, all of them 0 or 1), normalizes to the same
  sequence from its bitmap and from its list; and every bitmap normalizes to a strictly
  ascending sequence of identifiers.
\<close>

theorem bitmap_and_list_agree:
  assumes "sorted_wrt (<) ids" and "list_all (\<lambda>i. 0 \<le> i \<and> i < n) ids"
      and "\<not> bitmap_shaped n ids"
  shows "active_ids_of n (bitmap_of n ids) = Inr ids
       \<and> active_ids_of n (id_list_of ids) = Inr ids
       \<and> (\<forall>b. int (length b) = n \<and> list_all in_01 b \<longrightarrow>
              (\<exists>r. active_ids_of n b = Inr r \<and> sorted_wrt (<) r))"
proof -
  have "\<exists>r. active_ids_of n b = Inr r \<and> sorted_wrt (<) r"
    if "int (length b) = n \<and> list_all in_01 b" for b
    using bitmap_ids [of b n] that ascending_selected by simp
  with bitmap_form_ids [OF assms(1,2)] list_form_ids [OF assms(3)] show ?thesis by blast
qed

theorem bitmap_and_list_agree_witness:
  "sorted_wrt (<) [3, 7, 9 :: int] \<and> list_all (\<lambda>i. 0 \<le> i \<and> i < 10) [3, 7, 9 :: int]
   \<and> \<not> bitmap_shaped 10 [3, 7, 9]
   \<and> active_ids_of 10 (bitmap_of 10 [3, 7, 9]) = Inr [3, 7, 9]
   \<and> active_ids_of 10 (id_list_of [3, 7, 9]) = Inr [3, 7, 9]
   \<and> int (length (bitmap_of 10 [3, 7, 9])) = 10 \<and> list_all in_01 (bitmap_of 10 [3, 7, 9])
   \<and> (\<exists>r. active_ids_of 10 (bitmap_of 10 [3, 7, 9]) = Inr r \<and> sorted_wrt (<) r)"
proof -
  have h1: "sorted_wrt (<) [3, 7, 9 :: int]" by simp
  have h2: "list_all (\<lambda>i. 0 \<le> i \<and> i < 10) [3, 7, 9 :: int]" by simp
  have h3: "\<not> bitmap_shaped 10 [3, 7, 9]" by (simp add: bitmap_shaped_def)
  have b: "int (length (bitmap_of 10 [3, 7, 9])) = 10 \<and> list_all in_01 (bitmap_of 10 [3, 7, 9])"
    by (simp add: bitmap_of_shape)
  from bitmap_and_list_agree [OF h1 h2 h3] b
  have "active_ids_of 10 (bitmap_of 10 [3, 7, 9]) = Inr [3, 7, 9]"
    "active_ids_of 10 (id_list_of [3, 7, 9]) = Inr [3, 7, 9]"
    "\<exists>r. active_ids_of 10 (bitmap_of 10 [3, 7, 9]) = Inr r \<and> sorted_wrt (<) r"
    by blast+
  with h1 h2 h3 b show ?thesis by (intro conjI) blast+
qed

text \<open>Two clients in all, both active: the list \<open>[0, 1]\<close> is read as a bitmap and
  yields client 1 alone, where the bitmap of the same set yields both. And a list in
  descending order keeps its order, where the bitmap of the same set is ascending.\<close>

theorem bitmap_shaped_list_read_as_bitmap:
  "active_ids_of 2 (id_list_of [0, 1]) = Inr [1]
   \<and> active_ids_of 2 (bitmap_of 2 [0, 1]) = Inr [0, 1]
   \<and> active_ids_of 3 (id_list_of [2, 1]) = Inr [2, 1]
   \<and> active_ids_of 3 (bitmap_of 3 [2, 1]) = Inr [1, 2]"
  by (simp add: active_ids_of_def id_list_of_def bitmap_of_def parse_clients_def upt_rec)

subsection \<open>A held handle means an empty queue\<close>

lemma demo_net_queue_waits: "queue_waits demo_net"
  by (simp add: queue_waits_def demo_net_def)

lemma sendRequest_queue_waits: "queue_waits s \<Longrightarrow> queue_waits (snd (sendRequest loads run s array))"
  by (auto simp: sendRequest_def queue_waits_def Let_def split: sum.splits)

lemma sendAsyncRequest_queue_waits:
  "queue_waits s \<Longrightarrow> queue_waits (snd (sendAsyncRequest t s array))"
  by (auto simp: sendAsyncRequest_def queue_waits_def Let_def split: sum.splits)

lemma on_timeout_released: "proc (snd (on_timeout loads e s)) = None"
proof -
  obtain Q where "on_timeout loads e s =
      serve (s\<lparr>proc := None, async_queue := async_queue s @ Q\<rparr>)"
    using on_timeout_built by blast
  then show ?thesis by (simp add: serve_proc)
qed

lemma on_finished_released: "proc (snd (on_finished loads e s)) = None"
proof (cases "parse_last_json loads (comm_stdout e)")
  case (Inl err)
  then show ?thesis by (simp add: on_finished_def)
next
  case (Inr data)
  then obtain Q where "on_finished loads e s =
      serve (s\<lparr>proc := None, async_queue := async_queue s @ Q\<rparr>)"
    using on_finished_built by blast
  then show ?thesis by (simp add: serve_proc)
qed

lemma readAsyncResponse_queue_waits:
  "queue_waits s \<Longrightarrow> queue_waits (snd (readAsyncResponse loads e s))"
  by (auto simp: readAsyncResponse_def queue_waits_def on_timeout_released on_finished_released
        serve_proc)

subsection \<open>The throughput of every delivered metric\<close>

lemma find_snoc:
  "find P (xs @ [e]) =
     (case find P xs of None \<Rightarrow> (if P e then Some e else None) | Some x \<Rightarrow> Some x)"
  by (induction xs) auto

lemma sync_loop_values:
  "\<exists>out'. sync_loop st ids es out = Inr out' \<and>
     (\<forall>k. out' k =
        (case find (\<lambda>e. 0 \<le> local_of e \<and> local_of e < int (length ids)
                       \<and> ids ! nat (local_of e) = k) (rev es) of
           None \<Rightarrow> out k
         | Some e \<Rightarrow> Some \<lparr>roundTime = extract_times e st,
                           throughput = spec_throughput (rx_bytes_of e) (extract_times e st)\<rparr>))"
proof (induction es arbitrary: out)
  case Nil
  show ?case by simp
next
  case (Cons e es)
  let ?P = "\<lambda>k e. 0 \<le> local_of e \<and> local_of e < int (length ids) \<and> ids ! nat (local_of e) = k"
  let ?m = "\<lambda>e. \<lparr>roundTime = extract_times e st,
                   throughput = spec_throughput (rx_bytes_of e) (extract_times e st)\<rparr>"
  have fnd: "find (?P k) (rev (e # es)) =
      (case find (?P k) (rev es) of None \<Rightarrow> (if ?P k e then Some e else None) | Some x \<Rightarrow> Some x)"
    for k by (simp add: find_snoc)
  show ?case
  proof (cases "0 \<le> local_of e \<and> local_of e < int (length ids)")
    case False
    then have step: "sync_loop st ids (e # es) out = sync_loop st ids es out"
      by (simp add: Let_def)
    from Cons.IH [of out] obtain out' where o: "sync_loop st ids es out = Inr out'"
      and v: "\<forall>k. out' k = (case find (?P k) (rev es) of None \<Rightarrow> out k | Some e \<Rightarrow> Some (?m e))"
      by blast
    have "out' k = (case find (?P k) (rev (e # es)) of None \<Rightarrow> out k | Some e \<Rightarrow> Some (?m e))"
      for k
    proof (cases "find (?P k) (rev es)")
      case None
      with v have "out' k = out k" by simp
      with None False show ?thesis by (simp only: fnd) auto
    next
      case (Some x)
      with v have "out' k = Some (?m x)" by simp
      with Some show ?thesis by (simp only: fnd) simp
    qed
    with o step show ?thesis by simp
  next
    case True
    have m: "sync_metric st e = Inr (?m e)"
      by (simp add: sync_metric_total spec_throughput_def)
    let ?out1 = "out(ids ! nat (local_of e) \<mapsto> ?m e)"
    from True m have step: "sync_loop st ids (e # es) out = sync_loop st ids es ?out1"
      by (simp add: Let_def)
    from Cons.IH [of ?out1] obtain out' where o: "sync_loop st ids es ?out1 = Inr out'"
      and v: "\<forall>k. out' k = (case find (?P k) (rev es) of None \<Rightarrow> ?out1 k | Some e \<Rightarrow> Some (?m e))"
      by blast
    have "out' k = (case find (?P k) (rev (e # es)) of None \<Rightarrow> out k | Some e \<Rightarrow> Some (?m e))"
      for k
    proof (cases "find (?P k) (rev es)")
      case None
      with v have "out' k = ?out1 k" by simp
      with None True show ?thesis by (simp only: fnd) auto
    next
      case (Some x)
      with v have "out' k = Some (?m x)" by simp
      with Some show ?thesis by (simp only: fnd) simp
    qed
    with o step show ?thesis by simp
  qed
qed

lemma sendRequest_values:
  assumes "active_ids_of (num_clients s) array = Inr ids" and "ids \<noteq> []"
      and "returncode (run (cmd_of s (length ids))) = 0"
      and "parse_last_json loads (stdout (run (cmd_of s (length ids)))) = Inr data"
  shows "\<exists>out. fst (sendRequest loads run s array) = Inr out \<and>
     (\<forall>k. out k =
        map_option (\<lambda>e. \<lparr>roundTime = extract_times e (sim_time s),
                          throughput = spec_throughput (rx_bytes_of e)
                                         (extract_times e (sim_time s))\<rparr>)
          (find (\<lambda>e. 0 \<le> local_of e \<and> local_of e < int (length ids)
                     \<and> ids ! nat (local_of e) = k) (rev (client_results data))))"
proof -
  from sync_loop_values [of "sim_time s" ids "client_results data" Map.empty]
  obtain out where o: "sync_loop (sim_time s) ids (client_results data) Map.empty = Inr out"
    and v: "\<forall>k. out k =
        (case find (\<lambda>e. 0 \<le> local_of e \<and> local_of e < int (length ids)
                       \<and> ids ! nat (local_of e) = k) (rev (client_results data)) of
           None \<Rightarrow> None
         | Some e \<Rightarrow> Some \<lparr>roundTime = extract_times e (sim_time s),
                           throughput = spec_throughput (rx_bytes_of e)
                                          (extract_times e (sim_time s))\<rparr>)"
    by blast
  from assms o have "fst (sendRequest loads run s array) = Inr out"
    by (simp add: sendRequest_def Let_def)
  moreover from v have "\<forall>k. out k =
        map_option (\<lambda>e. \<lparr>roundTime = extract_times e (sim_time s),
                          throughput = spec_throughput (rx_bytes_of e)
                                         (extract_times e (sim_time s))\<rparr>)
          (find (\<lambda>e. 0 \<le> local_of e \<and> local_of e < int (length ids)
                     \<and> ids ! nat (local_of e) = k) (rev (client_results data)))"
    by (simp split: option.splits)
  ultimately show ?thesis by blast
qed

lemma timeout_loop_values:
  "timeout_loop st ids (results_of es) ls q =
     (None, q @ map (\<lambda>l. (ids ! l,
                case results_of es (int l) of
                  None \<Rightarrow> \<lparr>startTime = 0, endTime = st, athroughput = 0\<rparr>
                | Some ent \<Rightarrow> \<lparr>startTime = 0, endTime = extract_times ent st,
                               athroughput = spec_throughput (rx_bytes_of ent)
                                               (extract_times ent st)\<rparr>)) ls)"
proof (induction ls arbitrary: q)
  case Nil
  show ?case by simp
next
  case (Cons l ls)
  show ?case
  proof (cases "results_of es (int l)")
    case None
    then show ?thesis by (simp add: Cons.IH synthesized_def)
  next
    case (Some ent)
    then have "entry_nonempty ent" by (rule results_of_nonempty)
    with Some show ?thesis
      by (simp add: Cons.IH async_metric_total spec_throughput_def)
  qed
qed

lemma normal_loop_values:
  "normal_loop st ids (results_of es) ls q =
     (None, q @ List.map_filter (\<lambda>l. map_option (\<lambda>ent. (ids ! l,
                  \<lparr>startTime = 0, endTime = extract_times ent st,
                   athroughput = spec_throughput (rx_bytes_of ent) (extract_times ent st)\<rparr>))
                (results_of es (int l))) ls)"
proof (induction ls arbitrary: q)
  case Nil
  show ?case by simp
next
  case (Cons l ls)
  show ?case
  proof (cases "results_of es (int l)")
    case None
    then show ?thesis by (simp add: Cons.IH)
  next
    case (Some ent)
    then have "entry_nonempty ent" by (rule results_of_nonempty)
    with Some show ?thesis
      by (simp add: Cons.IH async_metric_total spec_throughput_def Let_def)
  qed
qed

lemma timeout_values:
  assumes "proc s \<noteq> None" and "exit_status ev = None" and "timed_out s ev"
  shows "readAsyncResponse loads ev s =
     serve (s\<lparr>proc := None,
              async_queue := async_queue s @
                map (\<lambda>l. (async_ids s ! l,
                     case results_of (client_results (tolerant_parse loads (comm_stdout ev)))
                            (int l) of
                       None \<Rightarrow> \<lparr>startTime = 0, endTime = sim_time s, athroughput = 0\<rparr>
                     | Some ent \<Rightarrow>
                         \<lparr>startTime = 0, endTime = extract_times ent (sim_time s),
                          athroughput = spec_throughput (rx_bytes_of ent)
                                          (extract_times ent (sim_time s))\<rparr>))
                  [0..<length (async_ids s)]\<rparr>)"
proof -
  from assms have "readAsyncResponse loads ev s = on_timeout loads ev s"
    by (auto simp: readAsyncResponse_def)
  then show ?thesis by (simp add: on_timeout_def Let_def timeout_loop_values)
qed

lemma finished_values:
  assumes "proc s \<noteq> None" and "exit_status ev \<noteq> None"
      and "parse_last_json loads (comm_stdout ev) = Inr data"
  shows "readAsyncResponse loads ev s =
     serve (s\<lparr>proc := None,
              async_queue := async_queue s @
                List.map_filter (\<lambda>l. map_option (\<lambda>ent. (async_ids s ! l,
                     \<lparr>startTime = 0, endTime = extract_times ent (sim_time s),
                      athroughput = spec_throughput (rx_bytes_of ent)
                                      (extract_times ent (sim_time s))\<rparr>))
                   (results_of (client_results data) (int l)))
                  [0..<length (async_ids s)]\<rparr>)"
proof -
  from assms have "readAsyncResponse loads ev s = on_finished loads ev s"
    by (auto simp: readAsyncResponse_def)
  with assms(3) show ?thesis by (simp add: on_finished_def Let_def normal_loop_values)
qed

text \<open>
  Claim C8. For every parsed result entry, on the sync and on the async paths alike, the
  throughput is \<open>rxBytes / completionTime\<close> when the completion time is positive and
  \<open>0\<close> otherwise, and a zero or negative completion time never causes a division
  error. This holds of the guarded division and of the metric built for one entry, and
  of the results themselves: the dictionary \<^verbatim>\<open>sendRequest\<close> returns has, at each
  logical identifier, the metric of the last in-range entry reported for it, with this
  throughput; the queue \<^verbatim>\<open>readAsyncResponse\<close> builds and serves from, on the timeout
  path and after a normal exit, holds for each reported client the record with this
  throughput. No call ends in \<open>ZeroDivisionError\<close>.
\<close>

theorem throughput_guarded:
  "thr_of rx_bytes done_at = Inr (if 0 < done_at then rx_bytes / done_at else 0)
   \<and> sync_metric st e =
       Inr \<lparr>roundTime = extract_times e st,
            throughput = (if 0 < extract_times e st
                          then rx_bytes_of e / extract_times e st else 0)\<rparr>
   \<and> async_metric st e =
       Inr \<lparr>startTime = 0, endTime = extract_times e st,
            athroughput = (if 0 < extract_times e st
                           then rx_bytes_of e / extract_times e st else 0)\<rparr>
   \<and> fst (sendRequest loads run s array) \<noteq> Inl ZeroDivisionError
   \<and> fst (readAsyncResponse loads ev s) \<noteq> Inl ZeroDivisionError
   \<and> (active_ids_of (num_clients s) array = Inr ids \<and> ids \<noteq> []
        \<and> returncode (run (cmd_of s (length ids))) = 0
        \<and> parse_last_json loads (stdout (run (cmd_of s (length ids)))) = Inr data
      \<longrightarrow> (\<exists>out. fst (sendRequest loads run s array) = Inr out \<and>
             (\<forall>k. out k =
                map_option (\<lambda>e. \<lparr>roundTime = extract_times e (sim_time s),
                                  throughput = spec_throughput (rx_bytes_of e)
                                                 (extract_times e (sim_time s))\<rparr>)
                  (find (\<lambda>e. 0 \<le> local_of e \<and> local_of e < int (length ids)
                             \<and> ids ! nat (local_of e) = k) (rev (client_results data))))))
   \<and> (proc s \<noteq> None \<and> exit_status ev = None \<and> timed_out s ev
      \<longrightarrow> readAsyncResponse loads ev s =
           serve (s\<lparr>proc := None,
              async_queue := async_queue s @
                map (\<lambda>l. (async_ids s ! l,
                     case results_of (client_results (tolerant_parse loads (comm_stdout ev)))
                            (int l) of
                       None \<Rightarrow> \<lparr>startTime = 0, endTime = sim_time s, athroughput = 0\<rparr>
                     | Some ent \<Rightarrow>
                         \<lparr>startTime = 0, endTime = extract_times ent (sim_time s),
                          athroughput = spec_throughput (rx_bytes_of ent)
                                          (extract_times ent (sim_time s))\<rparr>))
                  [0..<length (async_ids s)]\<rparr>))
   \<and> (proc s \<noteq> None \<and> exit_status ev \<noteq> None
        \<and> parse_last_json loads (comm_stdout ev) = Inr summ
      \<longrightarrow> readAsyncResponse loads ev s =
           serve (s\<lparr>proc := None,
              async_queue := async_queue s @
                List.map_filter (\<lambda>l. map_option (\<lambda>ent. (async_ids s ! l,
                     \<lparr>startTime = 0, endTime = extract_times ent (sim_time s),
                      athroughput = spec_throughput (rx_bytes_of ent)
                                      (extract_times ent (sim_time s))\<rparr>))
                   (results_of (client_results summ) (int l)))
                  [0..<length (async_ids s)]\<rparr>))"
proof (intro conjI impI)
  show "thr_of rx_bytes done_at = Inr (if 0 < done_at then rx_bytes / done_at else 0)"
    by (rule thr_of_total)
  show "sync_metric st e =
       Inr \<lparr>roundTime = extract_times e st,
            throughput = (if 0 < extract_times e st
                          then rx_bytes_of e / extract_times e st else 0)\<rparr>"
    by (rule sync_metric_total)
  show "async_metric st e =
       Inr \<lparr>startTime = 0, endTime = extract_times e st,
            athroughput = (if 0 < extract_times e st
                           then rx_bytes_of e / extract_times e st else 0)\<rparr>"
    by (rule async_metric_total)
  show "fst (sendRequest loads run s array) \<noteq> Inl ZeroDivisionError"
    by (rule sendRequest_no_zde)
  show "fst (readAsyncResponse loads ev s) \<noteq> Inl ZeroDivisionError"
    by (rule readAsyncResponse_no_zde)
next
  assume "active_ids_of (num_clients s) array = Inr ids \<and> ids \<noteq> []
        \<and> returncode (run (cmd_of s (length ids))) = 0
        \<and> parse_last_json loads (stdout (run (cmd_of s (length ids)))) = Inr data"
  then show "\<exists>out. fst (sendRequest loads run s array) = Inr out \<and>
             (\<forall>k. out k =
                map_option (\<lambda>e. \<lparr>roundTime = extract_times e (sim_time s),
                                  throughput = spec_throughput (rx_bytes_of e)
                                                 (extract_times e (sim_time s))\<rparr>)
                  (find (\<lambda>e. 0 \<le> local_of e \<and> local_of e < int (length ids)
                             \<and> ids ! nat (local_of e) = k) (rev (client_results data))))"
    using sendRequest_values [of s array ids run loads data] by blast
next
  assume "proc s \<noteq> None \<and> exit_status ev = None \<and> timed_out s ev"
  then show "readAsyncResponse loads ev s =
           serve (s\<lparr>proc := None,
              async_queue := async_queue s @
                map (\<lambda>l. (async_ids s ! l,
                     case results_of (client_results (tolerant_parse loads (comm_stdout ev)))
                            (int l) of
                       None \<Rightarrow> \<lparr>startTime = 0, endTime = sim_time s, athroughput = 0\<rparr>
                     | Some ent \<Rightarrow>
                         \<lparr>startTime = 0, endTime = extract_times ent (sim_time s),
                          athroughput = spec_throughput (rx_bytes_of ent)
                                          (extract_times ent (sim_time s))\<rparr>))
                  [0..<length (async_ids s)]\<rparr>)"
    using timeout_values [of s ev loads] by blast
next
  assume "proc s \<noteq> None \<and> exit_status ev \<noteq> None
        \<and> parse_last_json loads (comm_stdout ev) = Inr summ"
  then show "readAsyncResponse loads ev s =
           serve (s\<lparr>proc := None,
              async_queue := async_queue s @
                List.map_filter (\<lambda>l. map_option (\<lambda>ent. (async_ids s ! l,
                     \<lparr>startTime = 0, endTime = extract_times ent (sim_time s),
                      athroughput = spec_throughput (rx_bytes_of ent)
                                      (extract_times ent (sim_time s))\<rparr>))
                   (results_of (client_results summ) (int l)))
                  [0..<length (async_ids s)]\<rparr>)"
    using finished_values [of s ev loads summ] by blast
qed

lemma demo_run_ok:
  "returncode (demo_run 0 c) = 0"
  "parse_last_json demo_loads (stdout (demo_run 0 c)) = Inr (Some demo_entries)"
  by (simp_all add: demo_run_def demo_parse)

theorem throughput_guarded_witness:
  "active_ids_of (num_clients demo_net) [Raw 3, Raw 7, Raw 9] = Inr [3, 7, 9]
   \<and> returncode (demo_run 0 (cmd_of demo_net (length [3, 7, 9 :: int]))) = 0
   \<and> parse_last_json demo_loads (stdout (demo_run 0 (cmd_of demo_net (length [3, 7, 9 :: int]))))
       = Inr (Some demo_entries)
   \<and> (\<exists>out. fst (sendRequest demo_loads (demo_run 0) demo_net [Raw 3, Raw 7, Raw 9]) = Inr out
          \<and> out 9 = Some \<lparr>roundTime = 1, throughput = 2000\<rparr> \<and> out 7 = None)
   \<and> proc demo_started \<noteq> None \<and> exit_status demo_late = None
   \<and> timed_out demo_started demo_late
   \<and> fst (readAsyncResponse demo_loads demo_late demo_started) =
       Inr (Data (3, \<lparr>startTime = 0, endTime = 0.8, athroughput = 0\<rparr>))
   \<and> exit_status (demo_exited 0) \<noteq> None
   \<and> parse_last_json demo_loads (comm_stdout (demo_exited 0)) = Inr (Some demo_entries)
   \<and> fst (readAsyncResponse demo_loads (demo_exited 0) demo_started) =
       Inr (Data (3, \<lparr>startTime = 0, endTime = 0.5, athroughput = 2000\<rparr>))"
proof -
  have s1: "active_ids_of (num_clients demo_net) [Raw 3, Raw 7, Raw 9] = Inr [3, 7, 9]"
    by (simp add: demo_net_def demo_ids)
  have s2: "[3, 7, 9] \<noteq> ([] :: int list)" by simp
  note s3 = demo_run_ok(1) [of "cmd_of demo_net (length [3, 7, 9 :: int])"]
  note s4 = demo_run_ok(2) [of "cmd_of demo_net (length [3, 7, 9 :: int])"]
  have st: "sim_time demo_net = 0.8" by (simp add: demo_net_def)
  from throughput_guarded [where loads = demo_loads and run = "demo_run 0" and s = demo_net
         and array = "[Raw 3, Raw 7, Raw 9]" and ids = "[3, 7, 9]" and data = "Some demo_entries"]
       s1 s2 s3 s4
  obtain out where o: "fst (sendRequest demo_loads (demo_run 0) demo_net [Raw 3, Raw 7, Raw 9])
                        = Inr out"
    and v: "\<forall>k. out k =
                map_option (\<lambda>e. \<lparr>roundTime = extract_times e (sim_time demo_net),
                                  throughput = spec_throughput (rx_bytes_of e)
                                                 (extract_times e (sim_time demo_net))\<rparr>)
                  (find (\<lambda>e. 0 \<le> local_of e \<and> local_of e < int (length [3, 7, 9 :: int])
                             \<and> [3, 7, 9] ! nat (local_of e) = k)
                     (rev (client_results (Some demo_entries))))"
    by blast
  from v have "out 9 = Some \<lparr>roundTime = 1, throughput = 2000\<rparr>" "out 7 = None"
    by (simp_all add: client_results_def demo_entries_def local_of_def extract_times_def
          rx_bytes_of_def spec_throughput_def)
  with o have sync: "\<exists>out. fst (sendRequest demo_loads (demo_run 0) demo_net
                               [Raw 3, Raw 7, Raw 9]) = Inr out
          \<and> out 9 = Some \<lparr>roundTime = 1, throughput = 2000\<rparr> \<and> out 7 = None"
    by (auto intro: exI [of _ out])
  have t1: "proc demo_started \<noteq> None" by (simp add: demo_started_eq)
  have t2: "exit_status demo_late = None" by (simp add: demo_late_def)
  have t3: "timed_out demo_started demo_late"
    by (simp add: timed_out_def demo_late_def demo_started_eq)
  from throughput_guarded [where loads = demo_loads and ev = demo_late and s = demo_started]
       t1 t2 t3
  have "readAsyncResponse demo_loads demo_late demo_started =
           serve (demo_started\<lparr>proc := None,
              async_queue := async_queue demo_started @
                map (\<lambda>l. (async_ids demo_started ! l,
                     case results_of (client_results
                            (tolerant_parse demo_loads (comm_stdout demo_late))) (int l) of
                       None \<Rightarrow> \<lparr>startTime = 0, endTime = sim_time demo_started,
                                 athroughput = 0\<rparr>
                     | Some ent \<Rightarrow>
                         \<lparr>startTime = 0, endTime = extract_times ent (sim_time demo_started),
                          athroughput = spec_throughput (rx_bytes_of ent)
                                          (extract_times ent (sim_time demo_started))\<rparr>))
                  [0..<length (async_ids demo_started)]\<rparr>)"
    by blast
  then have late: "fst (readAsyncResponse demo_loads demo_late demo_started) =
       Inr (Data (3, \<lparr>startTime = 0, endTime = 0.8, athroughput = 0\<rparr>))"
    by (simp add: demo_started_eq demo_late_def demo_parse_late client_results_def
          results_of_def upt3 serve_def)
  have n1: "exit_status (demo_exited 0) \<noteq> None" by (simp add: demo_exited_def)
  have n2: "parse_last_json demo_loads (comm_stdout (demo_exited 0)) = Inr (Some demo_entries)"
    by (simp add: demo_exited_def demo_parse)
  from throughput_guarded [where loads = demo_loads and ev = "demo_exited 0"
         and s = demo_started and summ = "Some demo_entries"] t1 n1 n2
  have "readAsyncResponse demo_loads (demo_exited 0) demo_started =
           serve (demo_started\<lparr>proc := None,
              async_queue := async_queue demo_started @
                List.map_filter (\<lambda>l. map_option (\<lambda>ent. (async_ids demo_started ! l,
                     \<lparr>startTime = 0, endTime = extract_times ent (sim_time demo_started),
                      athroughput = spec_throughput (rx_bytes_of ent)
                                      (extract_times ent (sim_time demo_started))\<rparr>))
                   (results_of (client_results (Some demo_entries)) (int l)))
                  [0..<length (async_ids demo_started)]\<rparr>)"
    by blast
  then have fin: "fst (readAsyncResponse demo_loads (demo_exited 0) demo_started) =
       Inr (Data (3, \<lparr>startTime = 0, endTime = 0.5, athroughput = 2000\<rparr>))"
    by (simp add: demo_started_eq client_results_def demo_entries_def results_of_def
          local_of_def extract_times_def rx_bytes_of_def spec_throughput_def upt3 serve_def)
  from s1 s3 s4 sync t1 t2 t3 late n1 n2 fin show ?thesis by (intro conjI)
qed

end
